theory Spec2Isabelle
  imports Main "HOL-Library.Word"
begin

unbundle bit_operations_syntax

section \<open>The serial NOR flash driver of main.h (qspi_g128_flash.c)\<close>

text \<open>
  The driver is C for the 32-bit Cortex-A9 of the Zynq-7020: \<open>uint32_t\<close> is \<open>32 word\<close>,
  \<open>uint8_t\<close> is \<open>8 word\<close>, arithmetic wraps, and \<open>signed long\<close> is 32 bits wide.
\<close>

type_synonym u8 = "8 word"
type_synonym u32 = "32 word"

subsection \<open>Constants\<close>

named_theorems flash_defs

definition WRITE_CMD :: u8 where [flash_defs]: "WRITE_CMD = 0x02"
definition READ_CMD :: u8 where [flash_defs]: "READ_CMD = 0x03"
definition READ_STATUS_CMD :: u8 where [flash_defs]: "READ_STATUS_CMD = 0x05"
definition WRITE_ENABLE_CMD :: u8 where [flash_defs]: "WRITE_ENABLE_CMD = 0x06"
definition FAST_READ_CMD :: u8 where [flash_defs]: "FAST_READ_CMD = 0x0B"
definition DUAL_READ_CMD :: u8 where [flash_defs]: "DUAL_READ_CMD = 0x3B"
definition QUAD_READ_CMD :: u8 where [flash_defs]: "QUAD_READ_CMD = 0x6B"
definition BULK_ERASE_CMD :: u8 where [flash_defs]: "BULK_ERASE_CMD = 0xC7"
definition SEC_ERASE_CMD :: u8 where [flash_defs]: "SEC_ERASE_CMD = 0xD8"
definition READ_ID :: u8 where [flash_defs]: "READ_ID = 0x9F"
definition BANK_REG_WR :: u8 where [flash_defs]: "BANK_REG_WR = 0x17"
definition EXTADD_REG_WR :: u8 where [flash_defs]: "EXTADD_REG_WR = 0xC5"
definition DIE_ERASE_CMD :: u8 where [flash_defs]: "DIE_ERASE_CMD = 0xC4"
definition READ_FLAG_STATUS_CMD :: u8 where [flash_defs]: "READ_FLAG_STATUS_CMD = 0x70"

definition COMMAND_OFFSET :: nat where [flash_defs]: "COMMAND_OFFSET = 0"
definition ADDRESS_1_OFFSET :: nat where [flash_defs]: "ADDRESS_1_OFFSET = 1"
definition ADDRESS_2_OFFSET :: nat where [flash_defs]: "ADDRESS_2_OFFSET = 2"
definition ADDRESS_3_OFFSET :: nat where [flash_defs]: "ADDRESS_3_OFFSET = 3"
definition DATA_OFFSET :: nat where [flash_defs]: "DATA_OFFSET = 4"

definition DUMMY_SIZE :: u32 where [flash_defs]: "DUMMY_SIZE = 1"
definition RD_ID_SIZE :: u32 where [flash_defs]: "RD_ID_SIZE = 4"
definition BULK_ERASE_SIZE :: u32 where [flash_defs]: "BULK_ERASE_SIZE = 1"
definition SEC_ERASE_SIZE :: u32 where [flash_defs]: "SEC_ERASE_SIZE = 4"
definition BANK_SEL_SIZE :: u32 where [flash_defs]: "BANK_SEL_SIZE = 2"
definition DIE_ERASE_SIZE :: u32 where [flash_defs]: "DIE_ERASE_SIZE = 4"
definition OVERHEAD_SIZE :: u32 where [flash_defs]: "OVERHEAD_SIZE = 4"

definition SIXTEENMB :: u32 where [flash_defs]: "SIXTEENMB = 0x1000000"
definition BANKMASK :: u32 where [flash_defs]: "BANKMASK = 0xF000000"
definition BIN_START_ADDRESS :: u32 where [flash_defs]: "BIN_START_ADDRESS = 0x0000000"

definition MICRON_ID_BYTE0 :: u8 where [flash_defs]: "MICRON_ID_BYTE0 = 0x20"
definition MICRON_ID_BYTE2_128 :: u8 where [flash_defs]: "MICRON_ID_BYTE2_128 = 0x18"
definition MICRON_ID_BYTE2_256 :: u8 where [flash_defs]: "MICRON_ID_BYTE2_256 = 0x19"
definition MICRON_ID_BYTE2_512 :: u8 where [flash_defs]: "MICRON_ID_BYTE2_512 = 0x20"
definition MICRON_ID_BYTE2_1G :: u8 where [flash_defs]: "MICRON_ID_BYTE2_1G = 0x21"
definition SPANSION_ID_BYTE0 :: u8 where [flash_defs]: "SPANSION_ID_BYTE0 = 0x01"
definition SPANSION_ID_BYTE2_128 :: u8 where [flash_defs]: "SPANSION_ID_BYTE2_128 = 0x18"
definition SPANSION_ID_BYTE2_256 :: u8 where [flash_defs]: "SPANSION_ID_BYTE2_256 = 0x19"
definition SPANSION_ID_BYTE2_512 :: u8 where [flash_defs]: "SPANSION_ID_BYTE2_512 = 0x20"
definition WINBOND_ID_BYTE0 :: u8 where [flash_defs]: "WINBOND_ID_BYTE0 = 0xEF"
definition WINBOND_ID_BYTE2_128 :: u8 where [flash_defs]: "WINBOND_ID_BYTE2_128 = 0x18"
definition MACRONIX_ID_BYTE0 :: u8 where [flash_defs]: "MACRONIX_ID_BYTE0 = 0xC2"
definition MACRONIX_ID_BYTE2_256 :: u8 where [flash_defs]: "MACRONIX_ID_BYTE2_256 = 0x19"
definition MACRONIX_ID_BYTE2_512 :: u8 where [flash_defs]: "MACRONIX_ID_BYTE2_512 = 0x1A"
definition MACRONIX_ID_BYTE2_1G :: u8 where [flash_defs]: "MACRONIX_ID_BYTE2_1G = 0x1B"

text \<open>The indices into the configuration table (C \<open>int\<close> constants, all small).\<close>

definition SPANSION_INDEX_START :: u32 where [flash_defs]: "SPANSION_INDEX_START = 0"
definition FLASH_CFG_TBL_SINGLE_128_SP :: u32 where
  [flash_defs]: "FLASH_CFG_TBL_SINGLE_128_SP = SPANSION_INDEX_START"
definition FLASH_CFG_TBL_STACKED_128_SP :: u32 where
  [flash_defs]: "FLASH_CFG_TBL_STACKED_128_SP = SPANSION_INDEX_START + 1"
definition FLASH_CFG_TBL_PARALLEL_128_SP :: u32 where
  [flash_defs]: "FLASH_CFG_TBL_PARALLEL_128_SP = SPANSION_INDEX_START + 2"
definition FLASH_CFG_TBL_SINGLE_256_SP :: u32 where
  [flash_defs]: "FLASH_CFG_TBL_SINGLE_256_SP = SPANSION_INDEX_START + 3"
definition FLASH_CFG_TBL_STACKED_256_SP :: u32 where
  [flash_defs]: "FLASH_CFG_TBL_STACKED_256_SP = SPANSION_INDEX_START + 4"
definition FLASH_CFG_TBL_PARALLEL_256_SP :: u32 where
  [flash_defs]: "FLASH_CFG_TBL_PARALLEL_256_SP = SPANSION_INDEX_START + 5"
definition FLASH_CFG_TBL_SINGLE_512_SP :: u32 where
  [flash_defs]: "FLASH_CFG_TBL_SINGLE_512_SP = SPANSION_INDEX_START + 6"
definition FLASH_CFG_TBL_STACKED_512_SP :: u32 where
  [flash_defs]: "FLASH_CFG_TBL_STACKED_512_SP = SPANSION_INDEX_START + 7"
definition FLASH_CFG_TBL_PARALLEL_512_SP :: u32 where
  [flash_defs]: "FLASH_CFG_TBL_PARALLEL_512_SP = SPANSION_INDEX_START + 8"

definition MICRON_INDEX_START :: u32 where
  [flash_defs]: "MICRON_INDEX_START = FLASH_CFG_TBL_PARALLEL_512_SP + 1"
definition FLASH_CFG_TBL_SINGLE_1GB_MC :: u32 where
  [flash_defs]: "FLASH_CFG_TBL_SINGLE_1GB_MC = MICRON_INDEX_START + 9"
definition FLASH_CFG_TBL_STACKED_1GB_MC :: u32 where
  [flash_defs]: "FLASH_CFG_TBL_STACKED_1GB_MC = MICRON_INDEX_START + 10"
definition FLASH_CFG_TBL_PARALLEL_1GB_MC :: u32 where
  [flash_defs]: "FLASH_CFG_TBL_PARALLEL_1GB_MC = MICRON_INDEX_START + 11"

definition WINBOND_INDEX_START :: u32 where
  [flash_defs]: "WINBOND_INDEX_START = FLASH_CFG_TBL_PARALLEL_1GB_MC + 1"
definition FLASH_CFG_TBL_PARALLEL_128_WB :: u32 where
  [flash_defs]: "FLASH_CFG_TBL_PARALLEL_128_WB = WINBOND_INDEX_START + 2"

definition MACRONIX_INDEX_START :: u32 where
  [flash_defs]: "MACRONIX_INDEX_START = FLASH_CFG_TBL_PARALLEL_128_WB + 1 - 3"

subsection \<open>The configuration table\<close>

record FlashInfo =
  SectSize :: u32
  NumSect :: u32
  PageSize :: u32
  NumPage :: u32
  FlashDeviceSize :: u32
  ManufacturerID :: u8
  DeviceIDMemSize :: u8
  SectMask :: u32
  NumDie :: u8

text \<open>One initialiser row \<open>{a, b, c, d, e, f, g, h, i}\<close> of the C table.\<close>

definition row :: "u32 \<Rightarrow> u32 \<Rightarrow> u32 \<Rightarrow> u32 \<Rightarrow> u32 \<Rightarrow> u8 \<Rightarrow> u8 \<Rightarrow> u32 \<Rightarrow> u8 \<Rightarrow> FlashInfo" where
  "row a b c d e f g h i =
     \<lparr>SectSize = a, NumSect = b, PageSize = c, NumPage = d, FlashDeviceSize = e,
      ManufacturerID = f, DeviceIDMemSize = g, SectMask = h, NumDie = i\<rparr>"

definition Flash_Config_Table :: "FlashInfo list" where
  "Flash_Config_Table =
   [row 0x10000 0x100 256 0x10000 0x1000000 SPANSION_ID_BYTE0 SPANSION_ID_BYTE2_128 0xFFFF0000 1,
    row 0x10000 0x200 256 0x20000 0x1000000 SPANSION_ID_BYTE0 SPANSION_ID_BYTE2_128 0xFFFF0000 1,
    row 0x20000 0x100 512 0x10000 0x1000000 SPANSION_ID_BYTE0 SPANSION_ID_BYTE2_128 0xFFFE0000 1,
    row 0x10000 0x200 256 0x20000 0x2000000 SPANSION_ID_BYTE0 SPANSION_ID_BYTE2_256 0xFFFF0000 1,
    row 0x10000 0x400 256 0x40000 0x2000000 SPANSION_ID_BYTE0 SPANSION_ID_BYTE2_256 0xFFFF0000 1,
    row 0x20000 0x200 512 0x20000 0x2000000 SPANSION_ID_BYTE0 SPANSION_ID_BYTE2_256 0xFFFE0000 1,
    row 0x40000 0x100 512 0x20000 0x4000000 SPANSION_ID_BYTE0 SPANSION_ID_BYTE2_512 0xFFFC0000 1,
    row 0x40000 0x200 512 0x40000 0x4000000 SPANSION_ID_BYTE0 SPANSION_ID_BYTE2_512 0xFFFC0000 1,
    row 0x80000 0x100 1024 0x20000 0x4000000 SPANSION_ID_BYTE0 SPANSION_ID_BYTE2_512 0xFFF80000 1,
    row 0x10000 0x100 256 0x10000 0x1000000 MICRON_ID_BYTE0 MICRON_ID_BYTE2_128 0xFFFF0000 1,
    row 0x10000 0x200 256 0x20000 0x1000000 MICRON_ID_BYTE0 MICRON_ID_BYTE2_128 0xFFFF0000 1,
    row 0x20000 0x100 512 0x10000 0x1000000 MICRON_ID_BYTE0 MICRON_ID_BYTE2_128 0xFFFE0000 1,
    row 0x10000 0x200 256 0x20000 0x2000000 MICRON_ID_BYTE0 MICRON_ID_BYTE2_256 0xFFFF0000 1,
    row 0x10000 0x400 256 0x40000 0x2000000 MICRON_ID_BYTE0 MICRON_ID_BYTE2_256 0xFFFF0000 1,
    row 0x20000 0x200 512 0x20000 0x2000000 MICRON_ID_BYTE0 MICRON_ID_BYTE2_256 0xFFFE0000 1,
    row 0x10000 0x400 256 0x40000 0x4000000 MICRON_ID_BYTE0 MICRON_ID_BYTE2_512 0xFFFF0000 2,
    row 0x10000 0x800 256 0x80000 0x4000000 MICRON_ID_BYTE0 MICRON_ID_BYTE2_512 0xFFFF0000 2,
    row 0x20000 0x400 512 0x40000 0x4000000 MICRON_ID_BYTE0 MICRON_ID_BYTE2_512 0xFFFE0000 2,
    row 0x10000 0x800 256 0x80000 0x8000000 MICRON_ID_BYTE0 MICRON_ID_BYTE2_1G 0xFFFF0000 4,
    row 0x10000 0x1000 256 0x100000 0x8000000 MICRON_ID_BYTE0 MICRON_ID_BYTE2_1G 0xFFFF0000 4,
    row 0x20000 0x800 512 0x80000 0x8000000 MICRON_ID_BYTE0 MICRON_ID_BYTE2_1G 0xFFFE0000 4,
    row 0x10000 0x100 256 0x10000 0x1000000 WINBOND_ID_BYTE0 WINBOND_ID_BYTE2_128 0xFFFF0000 1,
    row 0x10000 0x200 256 0x20000 0x1000000 WINBOND_ID_BYTE0 WINBOND_ID_BYTE2_128 0xFFFF0000 1,
    row 0x20000 0x100 512 0x10000 0x1000000 WINBOND_ID_BYTE0 WINBOND_ID_BYTE2_128 0xFFFE0000 1,
    row 0x10000 0x200 256 0x20000 0x2000000 MACRONIX_ID_BYTE0 MACRONIX_ID_BYTE2_256 0xFFFF0000 1,
    row 0x10000 0x400 256 0x40000 0x2000000 MACRONIX_ID_BYTE0 MACRONIX_ID_BYTE2_256 0xFFFF0000 1,
    row 0x20000 0x200 512 0x20000 0x2000000 MACRONIX_ID_BYTE0 MACRONIX_ID_BYTE2_256 0xFFFE0000 1,
    row 0x10000 0x400 256 0x40000 0x4000000 MACRONIX_ID_BYTE0 MACRONIX_ID_BYTE2_512 0xFFFF0000 1,
    row 0x10000 0x800 256 0x80000 0x4000000 MACRONIX_ID_BYTE0 MACRONIX_ID_BYTE2_512 0xFFFF0000 1,
    row 0x20000 0x400 512 0x40000 0x4000000 MACRONIX_ID_BYTE0 MACRONIX_ID_BYTE2_512 0xFFFE0000 1,
    row 0x2000 0x4000 256 0x80000 0x8000000 MACRONIX_ID_BYTE0 MACRONIX_ID_BYTE2_1G 0xFFFF0000 1,
    row 0x2000 0x8000 256 0x100000 0x8000000 MACRONIX_ID_BYTE0 MACRONIX_ID_BYTE2_1G 0xFFFF0000 1,
    row 0x4000 0x4000 512 0x80000 0x8000000 MACRONIX_ID_BYTE0 MACRONIX_ID_BYTE2_1G 0xFFFE0000 1]"

subsection \<open>Driver state, bus and memory\<close>

text \<open>
  Modelled from the spec: the platform header that declares
  \<open>XQSPIPS_CONNECTION_MODE_SINGLE\<close>, \<open>_STACKED\<close> and \<open>_PARALLEL\<close> is not under src/;
  the spec names the three topologies Single, Stacked and Parallel. Every other value of
  \<open>Config.ConnectionMode\<close> is \<open>XQSPIPS_CONNECTION_MODE_OTHER\<close>: it takes the
  \<open>default\<close> label of each \<open>switch\<close>.
\<close>

datatype connection_mode =
    XQSPIPS_CONNECTION_MODE_SINGLE
  | XQSPIPS_CONNECTION_MODE_STACKED
  | XQSPIPS_CONNECTION_MODE_PARALLEL
  | XQSPIPS_CONNECTION_MODE_OTHER

text \<open>The status \<open>XQspiPs_PolledTransfer\<close> and \<open>FlashReadID\<close> return.\<close>

datatype xstatus = XST_SUCCESS | XST_FAILURE

text \<open>
  One call of \<open>XQspiPs_PolledTransfer\<close> as seen on the bus: the bytes clocked out, and
  whether the caller gave a receive buffer (\<open>Exchange\<close>) or \<open>NULL\<close> (\<open>Send\<close>).
\<close>

datatype xfer = Send "u8 list" | Exchange "u8 list"

text \<open>
  What happens to a C function that cannot be given a result: it reads a local variable
  that was never assigned, or it is still waiting for the device.
\<close>

datatype fault = Unassigned_Local | Blocked

text \<open>
  The state the driver works on.
  \<^item> \<open>ConnectionMode\<close> is \<open>QspiPtr->Config.ConnectionMode\<close>.
  \<^item> \<open>U_PAGE_MASK\<close> is the platform's \<open>XQSPIPS_LQSPI_CR_U_PAGE_MASK\<close>; its header
    is not under src/, so the mask is a parameter that no function changes.
  \<^item> \<open>LqspiCr\<close> is the LQSPI configuration register that
    \<open>XQspiPs_GetLqspiConfigReg\<close> reads and \<open>XQspiPs_SetLqspiConfigReg\<close> writes.
  \<^item> \<open>cs_asserts\<close> counts the calls of \<open>XQspiPs_SetSlaveSelect\<close>.
  \<^item> \<open>FlashMake\<close> and \<open>FCTIndex\<close> are the two globals of that name.
  \<^item> \<open>mem\<close> is the RAM that holds the caller's buffers; a pointer is an address in it.
  \<^item> \<open>bus\<close> is the log of the transfers made so far, oldest first.
  \<^item> \<open>script\<close> is what the device will answer: one entry, the status of the transfer
    and the bytes received, for each future transfer that has a receive buffer. When the
    script is used up the transfer does not return.
\<close>

record qspi =
  ConnectionMode :: connection_mode
  U_PAGE_MASK :: u32
  LqspiCr :: u32
  cs_asserts :: nat
  FlashMake :: u32
  FCTIndex :: u32
  mem :: "nat \<Rightarrow> u8"
  bus :: "xfer list"
  script :: "(xstatus \<times> u8 list) list"

text \<open>\<open>Flash_Config_Table[FCTIndex]\<close>; the table has 33 rows.\<close>

definition cfg :: "qspi \<Rightarrow> FlashInfo" where
  "cfg s = Flash_Config_Table ! unat (FCTIndex s)"

definition load :: "(nat \<Rightarrow> u8) \<Rightarrow> nat \<Rightarrow> nat \<Rightarrow> u8 list" where
  "load m p n = map (\<lambda>i. m (p + i)) [0..<n]"

definition store :: "(nat \<Rightarrow> u8) \<Rightarrow> nat \<Rightarrow> u8 list \<Rightarrow> nat \<Rightarrow> u8" where
  "store m p bs = (\<lambda>a. if p \<le> a \<and> a < p + length bs then bs ! (a - p) else m a)"

definition XQspiPs_SetSlaveSelect :: "qspi \<Rightarrow> qspi" where
  "XQspiPs_SetSlaveSelect s = s\<lparr>cs_asserts := Suc (cs_asserts s)\<rparr>"

text \<open>A transfer with \<open>RecvBufPtr = NULL\<close>; no caller looks at its status.\<close>

definition transfer_tx :: "qspi \<Rightarrow> u8 list \<Rightarrow> qspi" where
  "transfer_tx s bs = s\<lparr>bus := bus s @ [Send bs]\<rparr>"

text \<open>
  A transfer with a receive buffer: as many bytes come back as went out, the script's
  bytes, zero-filled when the script gives fewer.
\<close>

definition rx_bytes :: "nat \<Rightarrow> u8 list \<Rightarrow> u8 list" where
  "rx_bytes n d = take n (d @ replicate n 0)"

definition transfer_rx :: "qspi \<Rightarrow> u8 list \<Rightarrow> fault + (xstatus \<times> u8 list \<times> qspi)" where
  "transfer_rx s bs =
     (case script s of
        [] \<Rightarrow> Inl Blocked
      | (st, d) # rest \<Rightarrow>
          Inr (st, rx_bytes (length bs) d,
               s\<lparr>bus := bus s @ [Exchange bs], script := rest\<rparr>))"

subsection \<open>Address translation\<close>

text \<open>
  \<open>GetRealAddr\<close>. The local \<open>RealAddr\<close> is returned as \<open>None\<close> when no branch of the
  \<open>switch\<close> has assigned it.
\<close>

definition GetRealAddr :: "qspi \<Rightarrow> u32 \<Rightarrow> u32 option \<times> qspi" where
  "GetRealAddr s Address =
     (case ConnectionMode s of
        XQSPIPS_CONNECTION_MODE_SINGLE \<Rightarrow> (Some Address, s)
      | XQSPIPS_CONNECTION_MODE_STACKED \<Rightarrow>
          (let cr = LqspiCr s in
           if Address AND FlashDeviceSize (cfg s) \<noteq> 0
           then (Some (Address AND NOT (FlashDeviceSize (cfg s))),
                 XQspiPs_SetSlaveSelect (s\<lparr>LqspiCr := cr OR U_PAGE_MASK s\<rparr>))
           else (Some Address,
                 XQspiPs_SetSlaveSelect (s\<lparr>LqspiCr := cr AND NOT (U_PAGE_MASK s)\<rparr>)))
      | XQSPIPS_CONNECTION_MODE_PARALLEL \<Rightarrow> (Some (Address div 2), s)
      | XQSPIPS_CONNECTION_MODE_OTHER \<Rightarrow> (None, s))"

text \<open>The value \<open>GetRealAddr\<close> returns, for the topologies that assign it.\<close>

definition real_addr :: "qspi \<Rightarrow> u32 \<Rightarrow> u32" where
  "real_addr s Address =
     (case ConnectionMode s of
        XQSPIPS_CONNECTION_MODE_STACKED \<Rightarrow>
          (if Address AND FlashDeviceSize (cfg s) \<noteq> 0
           then Address AND NOT (FlashDeviceSize (cfg s)) else Address)
      | XQSPIPS_CONNECTION_MODE_PARALLEL \<Rightarrow> Address div 2
      | _ \<Rightarrow> Address)"

subsection \<open>Bank selection and status polling\<close>

text \<open>\<open>SendBankSelect\<close>; it always returns \<open>XST_SUCCESS\<close>, which no caller reads.\<close>

definition SendBankSelect :: "qspi \<Rightarrow> nat \<Rightarrow> u32 \<Rightarrow> qspi" where
  "SendBankSelect s WriteBfrPtr BankSel =
     (let s1 =
        (if FlashMake s = ucast MICRON_ID_BYTE0
         then
           (let sa = transfer_tx s [WRITE_ENABLE_CMD];
                sb = sa\<lparr>mem := (mem sa)
                       (WriteBfrPtr + COMMAND_OFFSET := EXTADD_REG_WR,
                        WriteBfrPtr + ADDRESS_1_OFFSET := ucast BankSel)\<rparr>
            in transfer_tx sb (load (mem sb) WriteBfrPtr (unat BANK_SEL_SIZE)))
         else s)
      in if FlashMake s1 = ucast SPANSION_ID_BYTE0
         then
           (let sb = s1\<lparr>mem := (mem s1)
                       (WriteBfrPtr + COMMAND_OFFSET := BANK_REG_WR,
                        WriteBfrPtr + ADDRESS_1_OFFSET := ucast BankSel)\<rparr>
            in transfer_tx sb (load (mem sb) WriteBfrPtr (unat BANK_SEL_SIZE)))
         else s1)"

text \<open>
  The \<open>while (1)\<close> loop of \<open>FlashWrite\<close>, \<open>FlashErase\<close> and \<open>BulkErase\<close>: send
  \<open>ReadStatusCmd\<close>, receive \<open>FlashStatus\<close>, leave when bit 0 of \<open>FlashStatus[1]\<close> is clear.
\<close>

function poll_status :: "qspi \<Rightarrow> fault + qspi" where
  "poll_status s =
     (case transfer_rx s [READ_STATUS_CMD, 0] of
        Inl e \<Rightarrow> Inl e
      | Inr (st, FlashStatus, s') \<Rightarrow>
          if (FlashStatus ! 1) AND 0x01 = 0 then Inr s' else poll_status s')"
  by pat_completeness auto
termination
  by (relation "measure (\<lambda>s. length (script s))")
     (auto simp: transfer_rx_def split: list.splits)

text \<open>
  The \<open>while (1)\<close> loop of \<open>DieErase\<close>: send \<open>ReadFlagSRCmd\<close>, receive \<open>FlagStatus\<close>,
  leave when bit 7 of \<open>FlagStatus[1]\<close> is set.
\<close>

function poll_flag_status :: "qspi \<Rightarrow> fault + qspi" where
  "poll_flag_status s =
     (case transfer_rx s [READ_FLAG_STATUS_CMD, 0] of
        Inl e \<Rightarrow> Inl e
      | Inr (st, FlagStatus, s') \<Rightarrow>
          if (FlagStatus ! 1) AND 0x80 = 0x80 then Inr s' else poll_flag_status s')"
  by pat_completeness auto
termination
  by (relation "measure (\<lambda>s. length (script s))")
     (auto simp: transfer_rx_def split: list.splits)

text \<open>One transfer of \<open>ReadFlagSRCmd\<close> whose answer is not looked at.\<close>

definition read_flag_status :: "qspi \<Rightarrow> fault + qspi" where
  "read_flag_status s =
     (case transfer_rx s [READ_FLAG_STATUS_CMD, 0] of
        Inl e \<Rightarrow> Inl e
      | Inr (st, FlagStatus, s') \<Rightarrow> Inr s')"

text \<open>\<open>(NumDie > 1) && (FlashMake == MICRON_ID_BYTE0)\<close>\<close>

definition multi_die_micron :: "qspi \<Rightarrow> bool" where
  "multi_die_micron s \<longleftrightarrow> 1 < NumDie (cfg s) \<and> FlashMake s = ucast MICRON_ID_BYTE0"

subsection \<open>Program\<close>

text \<open>
  \<open>FlashWrite\<close>. \<open>WriteBfrPtr\<close> points at the four header bytes; the caller has put the
  payload behind them.
\<close>

definition FlashWrite :: "qspi \<Rightarrow> u32 \<Rightarrow> u32 \<Rightarrow> u8 \<Rightarrow> nat \<Rightarrow> fault + qspi" where
  "FlashWrite s Address ByteCount Command WriteBfrPtr =
     (case GetRealAddr s Address of
        (None, s1) \<Rightarrow> Inl Unassigned_Local
      | (Some RealAddr, s1) \<Rightarrow>
          (let s2 = (if SIXTEENMB < FlashDeviceSize (cfg s1)
                     then SendBankSelect s1 WriteBfrPtr (RealAddr div SIXTEENMB) else s1);
               s3 = transfer_tx s2 [WRITE_ENABLE_CMD];
               s4 = s3\<lparr>mem := (mem s3)
                      (WriteBfrPtr + COMMAND_OFFSET := Command,
                       WriteBfrPtr + ADDRESS_1_OFFSET := ucast (drop_bit 16 (RealAddr AND 0xFF0000)),
                       WriteBfrPtr + ADDRESS_2_OFFSET := ucast (drop_bit 8 (RealAddr AND 0xFF00)),
                       WriteBfrPtr + ADDRESS_3_OFFSET := ucast (RealAddr AND 0xFF))\<rparr>;
               s5 = transfer_tx s4 (load (mem s4) WriteBfrPtr (unat (ByteCount + OVERHEAD_SIZE)))
           in case (if multi_die_micron s5 then read_flag_status s5 else Inr s5) of
                Inl e \<Rightarrow> Inl e
              | Inr s6 \<Rightarrow>
                  (case poll_status s6 of
                     Inl e \<Rightarrow> Inl e
                   | Inr s7 \<Rightarrow> if multi_die_micron s7 then read_flag_status s7 else Inr s7)))"

subsection \<open>Erase\<close>

definition BulkErase :: "qspi \<Rightarrow> nat \<Rightarrow> fault + qspi" where
  "BulkErase s WriteBfrPtr =
     (let s1 = transfer_tx s [WRITE_ENABLE_CMD];
          s2 = s1\<lparr>mem := (mem s1)(WriteBfrPtr + COMMAND_OFFSET := BULK_ERASE_CMD)\<rparr>;
          s3 = transfer_tx s2 (load (mem s2) WriteBfrPtr (unat BULK_ERASE_SIZE))
      in poll_status s3)"

text \<open>The \<open>for\<close> loop of \<open>DieErase\<close>, from the die \<open>DieCnt\<close> on.\<close>

function DieErase_loop :: "qspi \<Rightarrow> nat \<Rightarrow> u8 \<Rightarrow> fault + qspi" where
  "DieErase_loop s WriteBfrPtr DieCnt =
     (if DieCnt < NumDie (cfg s)
      then
        (let s1 = SendBankSelect s WriteBfrPtr (ucast DieCnt * 2);
             s2 = transfer_tx s1 [WRITE_ENABLE_CMD];
             s3 = s2\<lparr>mem := (mem s2)
                    (WriteBfrPtr + COMMAND_OFFSET := DIE_ERASE_CMD,
                     WriteBfrPtr + ADDRESS_1_OFFSET := 0x00,
                     WriteBfrPtr + ADDRESS_2_OFFSET := 0x00,
                     WriteBfrPtr + ADDRESS_3_OFFSET := 0x00)\<rparr>;
             s4 = transfer_tx s3 (load (mem s3) WriteBfrPtr (unat DIE_ERASE_SIZE))
         in case poll_flag_status s4 of
              Inl e \<Rightarrow> Inl e
            | Inr s5 \<Rightarrow> DieErase_loop s5 WriteBfrPtr (DieCnt + 1))
      else Inr s)"
  by pat_completeness auto
termination
  apply (relation "measure (\<lambda>(s, W, DieCnt). 256 - unat DieCnt)")
   apply simp
  apply (clarsimp simp: word_less_nat_alt)
  apply (subst unat_word_ariths)
  apply (subgoal_tac "unat (NumDie (cfg s)) < 256")
   apply simp
  apply (rule order_less_le_trans [OF unsigned_less])
  apply simp
  done

definition DieErase :: "qspi \<Rightarrow> nat \<Rightarrow> fault + qspi" where
  "DieErase s WriteBfrPtr = DieErase_loop s WriteBfrPtr 0"

text \<open>
  The two \<open>if\<close>s of \<open>FlashErase\<close> that erase the chip now selected: \<open>BulkErase\<close> when
  \<open>NumDie == 1\<close>, \<open>DieErase\<close> when \<open>NumDie > 1\<close>.
\<close>

definition erase_selected_chip :: "qspi \<Rightarrow> nat \<Rightarrow> fault + qspi" where
  "erase_selected_chip s WriteBfrPtr =
     (case (if NumDie (cfg s) = 1 then BulkErase s WriteBfrPtr else Inr s) of
        Inl e \<Rightarrow> Inl e
      | Inr s1 \<Rightarrow> if 1 < NumDie (cfg s1) then DieErase s1 WriteBfrPtr else Inr s1)"

text \<open>
  The body of the sector loop of \<open>FlashErase\<close>, up to the poll after the erase.
  \<open>BankSel\<close> is \<open>None\<close> as long as it has not been assigned; it is then compared only
  on a device of at most 16 MB, where the second operand of \<open>&&\<close> decides.
\<close>

definition FlashErase_sector ::
  "qspi \<Rightarrow> u32 \<Rightarrow> bool \<Rightarrow> u32 option \<Rightarrow> nat \<Rightarrow> fault + (qspi \<times> bool \<times> u32 option)" where
  "FlashErase_sector s Address BankInitFlag BankSel WriteBfrPtr =
     (case GetRealAddr s Address of
        (None, s1) \<Rightarrow> Inl Unassigned_Local
      | (Some RealAddr, s1) \<Rightarrow>
          (let (s2, BankInitFlag2, BankSel2) =
                 (if BankInitFlag \<and> SIXTEENMB < FlashDeviceSize (cfg s1)
                  then (SendBankSelect s1 WriteBfrPtr (RealAddr div SIXTEENMB),
                        False, Some (RealAddr div SIXTEENMB))
                  else (s1, BankInitFlag, BankSel));
               (s3, BankSel3) =
                 (if BankSel2 \<noteq> Some (RealAddr div SIXTEENMB) \<and>
                     SIXTEENMB < FlashDeviceSize (cfg s2)
                  then (SendBankSelect s2 WriteBfrPtr (RealAddr div SIXTEENMB),
                        Some (RealAddr div SIXTEENMB))
                  else (s2, BankSel2));
               s4 = transfer_tx s3 [WRITE_ENABLE_CMD];
               s5 = s4\<lparr>mem := (mem s4)
                      (WriteBfrPtr + COMMAND_OFFSET := SEC_ERASE_CMD,
                       WriteBfrPtr + ADDRESS_1_OFFSET := ucast (drop_bit 16 RealAddr),
                       WriteBfrPtr + ADDRESS_2_OFFSET := ucast (drop_bit 8 RealAddr),
                       WriteBfrPtr + ADDRESS_3_OFFSET := ucast (RealAddr AND 0xFF))\<rparr>;
               s6 = transfer_tx s5 (load (mem s5) WriteBfrPtr (unat SEC_ERASE_SIZE))
           in case (if multi_die_micron s6 then read_flag_status s6 else Inr s6) of
                Inl e \<Rightarrow> Inl e
              | Inr s7 \<Rightarrow>
                  (case poll_status s7 of
                     Inl e \<Rightarrow> Inl e
                   | Inr s8 \<Rightarrow>
                       (case (if multi_die_micron s8 then read_flag_status s8 else Inr s8) of
                          Inl e \<Rightarrow> Inl e
                        | Inr s9 \<Rightarrow> Inr (s9, BankInitFlag2, BankSel3)))))"

text \<open>
  \<open>for (Sector = 0; Sector < NumSect; Sector++)\<close>; the comparison is unsigned, since
  \<open>NumSect\<close> is a \<open>uint32_t\<close>.
\<close>

function FlashErase_loop ::
  "qspi \<Rightarrow> u32 \<Rightarrow> u32 \<Rightarrow> u32 \<Rightarrow> bool \<Rightarrow> u32 option \<Rightarrow> nat \<Rightarrow> fault + qspi" where
  "FlashErase_loop s Address Sector nsect BankInitFlag BankSel WriteBfrPtr =
     (if Sector < nsect
      then
        (case FlashErase_sector s Address BankInitFlag BankSel WriteBfrPtr of
           Inl e \<Rightarrow> Inl e
         | Inr (s', BankInitFlag', BankSel') \<Rightarrow>
             FlashErase_loop s' (Address + SectSize (cfg s')) (Sector + 1) nsect
               BankInitFlag' BankSel' WriteBfrPtr)
      else Inr s)"
  by pat_completeness auto
termination
  apply (relation "measure (\<lambda>(s, Address, Sector, nsect, r). unat nsect - unat Sector)")
   apply simp
  apply (clarsimp simp: word_less_nat_alt)
  apply (subst unat_word_ariths)
  apply (subgoal_tac "unat nsect < 2 ^ 32")
   apply simp
  apply (rule order_less_le_trans [OF unsigned_less])
  apply simp
  done

definition FlashErase :: "qspi \<Rightarrow> u32 \<Rightarrow> u32 \<Rightarrow> nat \<Rightarrow> fault + qspi" where
  "FlashErase s Address ByteCount WriteBfrPtr =
     (if ByteCount = NumSect (cfg s) * SectSize (cfg s)
      then
        (let s1 = (if ConnectionMode s = XQSPIPS_CONNECTION_MODE_STACKED
                   then XQspiPs_SetSlaveSelect
                          (s\<lparr>LqspiCr := LqspiCr s AND NOT (U_PAGE_MASK s)\<rparr>)
                   else s)
         in case erase_selected_chip s1 WriteBfrPtr of
              Inl e \<Rightarrow> Inl e
            | Inr s2 \<Rightarrow>
                if ConnectionMode s2 = XQSPIPS_CONNECTION_MODE_STACKED
                then erase_selected_chip
                       (XQspiPs_SetSlaveSelect
                          (s2\<lparr>LqspiCr := LqspiCr s2 OR U_PAGE_MASK s2\<rparr>))
                       WriteBfrPtr
                else Inr s2)
      else
        (let n0 = ByteCount div SectSize (cfg s) + 1;
             nsect = (if (Address + ByteCount) AND SectMask (cfg s) =
                         (Address + n0 * SectSize (cfg s)) AND SectMask (cfg s)
                      then n0 + 1 else n0)
         in FlashErase_loop s Address 0 nsect True None WriteBfrPtr))"

subsection \<open>Identification\<close>

text \<open>
  One \<open>switch (QspiPtr->Config.ConnectionMode)\<close> of \<open>FlashReadID\<close>: the three cases add
  \<open>StartIndex\<close> to a table offset, the default case stores 0. \<open>StartIndex\<close> is \<open>None\<close>
  when no manufacturer matched and the local was never assigned.
\<close>

definition select_index ::
  "connection_mode \<Rightarrow> u32 option \<Rightarrow> u32 \<Rightarrow> u32 \<Rightarrow> u32 \<Rightarrow> fault + u32" where
  "select_index m StartIndex single parallel stacked =
     (case m of
        XQSPIPS_CONNECTION_MODE_SINGLE \<Rightarrow>
          (case StartIndex of None \<Rightarrow> Inl Unassigned_Local | Some i \<Rightarrow> Inr (single + i))
      | XQSPIPS_CONNECTION_MODE_PARALLEL \<Rightarrow>
          (case StartIndex of None \<Rightarrow> Inl Unassigned_Local | Some i \<Rightarrow> Inr (parallel + i))
      | XQSPIPS_CONNECTION_MODE_STACKED \<Rightarrow>
          (case StartIndex of None \<Rightarrow> Inl Unassigned_Local | Some i \<Rightarrow> Inr (stacked + i))
      | XQSPIPS_CONNECTION_MODE_OTHER \<Rightarrow> Inr 0)"

text \<open>\<open>if (cond) { switch ... }\<close>: store the selected index in \<open>FCTIndex\<close>.\<close>

definition set_index_if ::
  "bool \<Rightarrow> u32 option \<Rightarrow> u32 \<Rightarrow> u32 \<Rightarrow> u32 \<Rightarrow> qspi \<Rightarrow> fault + qspi" where
  "set_index_if cond StartIndex single parallel stacked s =
     (if cond
      then (case select_index (ConnectionMode s) StartIndex single parallel stacked of
              Inl e \<Rightarrow> Inl e
            | Inr i \<Rightarrow> Inr (s\<lparr>FCTIndex := i\<rparr>))
      else Inr s)"

text \<open>
  \<open>FlashReadID\<close>. The received bytes \<open>ReadBfrPtr[1]\<close> and \<open>ReadBfrPtr[3]\<close> are the
  manufacturer and the size code. The diagnostic \<open>xil_printf\<close> is left out.
\<close>

definition FlashReadID :: "qspi \<Rightarrow> nat \<Rightarrow> nat \<Rightarrow> fault + (xstatus \<times> qspi)" where
  "FlashReadID s WriteBfrPtr ReadBfrPtr =
     (let s1 = s\<lparr>mem := (mem s)
                 (WriteBfrPtr + COMMAND_OFFSET := READ_ID,
                  WriteBfrPtr + ADDRESS_1_OFFSET := 0x23,
                  WriteBfrPtr + ADDRESS_2_OFFSET := 0x08,
                  WriteBfrPtr + ADDRESS_3_OFFSET := 0x09)\<rparr>
      in case transfer_rx s1 (load (mem s1) WriteBfrPtr (unat RD_ID_SIZE)) of
           Inl e \<Rightarrow> Inl e
         | Inr (Status, rcv, s2) \<Rightarrow>
             (let s3 = s2\<lparr>mem := store (mem s2) ReadBfrPtr rcv\<rparr>
              in if Status \<noteq> XST_SUCCESS then Inr (XST_FAILURE, s3)
                 else
                   (let id0 = mem s3 (ReadBfrPtr + 1);
                        id2 = mem s3 (ReadBfrPtr + 3);
                        (s4, StartIndex) =
                          (if id0 = MICRON_ID_BYTE0
                           then (s3\<lparr>FlashMake := ucast MICRON_ID_BYTE0\<rparr>,
                                 Some MICRON_INDEX_START)
                           else if id0 = SPANSION_ID_BYTE0
                           then (s3\<lparr>FlashMake := ucast SPANSION_ID_BYTE0\<rparr>,
                                 Some SPANSION_INDEX_START)
                           else if id0 = WINBOND_ID_BYTE0
                           then (s3\<lparr>FlashMake := ucast WINBOND_ID_BYTE0\<rparr>,
                                 Some WINBOND_INDEX_START)
                           else if id0 = MACRONIX_ID_BYTE0
                           then (s3\<lparr>FlashMake := ucast MACRONIX_ID_BYTE0\<rparr>,
                                 Some MACRONIX_INDEX_START)
                           else (s3, None))
                    in case set_index_if
                              ((FlashMake s4 = ucast MICRON_ID_BYTE0 \<or>
                                FlashMake s4 = ucast SPANSION_ID_BYTE0 \<or>
                                FlashMake s4 = ucast WINBOND_ID_BYTE0) \<and>
                               id2 = MICRON_ID_BYTE2_128)
                              StartIndex FLASH_CFG_TBL_SINGLE_128_SP
                              FLASH_CFG_TBL_PARALLEL_128_SP FLASH_CFG_TBL_STACKED_128_SP s4 of
                         Inl e \<Rightarrow> Inl e
                       | Inr s5 \<Rightarrow>
                    (case set_index_if
                              ((FlashMake s5 = ucast MICRON_ID_BYTE0 \<or>
                                FlashMake s5 = ucast SPANSION_ID_BYTE0 \<or>
                                FlashMake s5 = ucast MACRONIX_ID_BYTE0) \<and>
                               id2 = MICRON_ID_BYTE2_256)
                              StartIndex FLASH_CFG_TBL_SINGLE_256_SP
                              FLASH_CFG_TBL_PARALLEL_256_SP FLASH_CFG_TBL_STACKED_256_SP s5 of
                         Inl e \<Rightarrow> Inl e
                       | Inr s6 \<Rightarrow>
                    (case set_index_if
                              (((FlashMake s6 = ucast MICRON_ID_BYTE0 \<or>
                                 FlashMake s6 = ucast SPANSION_ID_BYTE0) \<and>
                                id2 = MICRON_ID_BYTE2_512) \<or>
                               (FlashMake s6 = ucast MACRONIX_ID_BYTE0 \<and>
                                id2 = MACRONIX_ID_BYTE2_512))
                              StartIndex FLASH_CFG_TBL_SINGLE_512_SP
                              FLASH_CFG_TBL_PARALLEL_512_SP FLASH_CFG_TBL_STACKED_512_SP s6 of
                         Inl e \<Rightarrow> Inl e
                       | Inr s7 \<Rightarrow>
                    (case set_index_if
                              ((FlashMake s7 = ucast MICRON_ID_BYTE0 \<and>
                                id2 = MICRON_ID_BYTE2_1G) \<or>
                               (FlashMake s7 = ucast MACRONIX_ID_BYTE0 \<and>
                                id2 = MACRONIX_ID_BYTE2_1G))
                              (Some 0) FLASH_CFG_TBL_SINGLE_1GB_MC
                              FLASH_CFG_TBL_PARALLEL_1GB_MC FLASH_CFG_TBL_STACKED_1GB_MC s7 of
                         Inl e \<Rightarrow> Inl e
                       | Inr s8 \<Rightarrow> Inr (XST_SUCCESS, s8)))))))"

subsection \<open>Read\<close>

text \<open>\<open>Command\<close> is one of the three reads that take a dummy byte.\<close>

definition dummy_read :: "u8 \<Rightarrow> bool" where
  "dummy_read Command \<longleftrightarrow>
     Command = FAST_READ_CMD \<or> Command = DUAL_READ_CMD \<or> Command = QUAD_READ_CMD"

text \<open>
  The body of the \<open>while\<close> loop of \<open>FlashRead\<close>; it gives the state and the new
  \<open>Address\<close> and \<open>ByteCount\<close>.
\<close>

definition FlashRead_chunk ::
  "qspi \<Rightarrow> u32 \<Rightarrow> u32 \<Rightarrow> u8 \<Rightarrow> nat \<Rightarrow> nat \<Rightarrow> u32 \<Rightarrow> fault + (qspi \<times> u32 \<times> u32)" where
  "FlashRead_chunk s Address ByteCount Command WriteBfrPtr ReadBfrPtr TotalByteCnt =
     (case GetRealAddr s Address of
        (None, s1) \<Rightarrow> Inl Unassigned_Local
      | (Some RealAddr, s1) \<Rightarrow>
          (let s2 = (if SIXTEENMB < FlashDeviceSize (cfg s1)
                     then SendBankSelect s1 WriteBfrPtr (RealAddr div SIXTEENMB) else s1);
               RealByteCnt0 =
                 (if Address AND BANKMASK \<noteq> (Address + ByteCount) AND BANKMASK
                  then (Address AND BANKMASK) + SIXTEENMB - Address else ByteCount);
               s3 = s2\<lparr>mem := (mem s2)
                      (WriteBfrPtr + COMMAND_OFFSET := Command,
                       WriteBfrPtr + ADDRESS_1_OFFSET := ucast (drop_bit 16 (RealAddr AND 0xFF0000)),
                       WriteBfrPtr + ADDRESS_2_OFFSET := ucast (drop_bit 8 (RealAddr AND 0xFF00)),
                       WriteBfrPtr + ADDRESS_3_OFFSET := ucast (RealAddr AND 0xFF))\<rparr>;
               RealByteCnt = (if dummy_read Command then RealByteCnt0 + DUMMY_SIZE
                              else RealByteCnt0);
               first = TotalByteCnt - ByteCount
           in case transfer_rx s3
                     (load (mem s3) WriteBfrPtr (unat (RealByteCnt + OVERHEAD_SIZE))) of
                Inl e \<Rightarrow> Inl e
              | Inr (st, rcv, s4) \<Rightarrow>
                  (let s5 = s4\<lparr>mem := store (mem s4) (ReadBfrPtr + unat first) rcv\<rparr>;
                       ShiftSize = (if dummy_read Command then OVERHEAD_SIZE + DUMMY_SIZE
                                    else OVERHEAD_SIZE);
                       s6 = s5\<lparr>mem :=
                              fold (\<lambda>BufferIndex m.
                                      m(ReadBfrPtr + BufferIndex :=
                                          m (ReadBfrPtr +
                                             unat (word_of_nat BufferIndex + ShiftSize))))
                                   [unat first..<unat (first + RealByteCnt)] (mem s5)\<rparr>;
                       Address' = (Address AND BANKMASK) + SIXTEENMB;
                       ByteCount' = (if dummy_read Command
                                     then ByteCount - (RealByteCnt - DUMMY_SIZE)
                                     else ByteCount - RealByteCnt)
                   in Inr (s6, Address', ByteCount'))))"

text \<open>\<open>while (((signed long) (ByteCount)) > 0)\<close>\<close>

function FlashRead_loop ::
  "qspi \<Rightarrow> u32 \<Rightarrow> u32 \<Rightarrow> u8 \<Rightarrow> nat \<Rightarrow> nat \<Rightarrow> u32 \<Rightarrow> fault + qspi" where
  "FlashRead_loop s Address ByteCount Command WriteBfrPtr ReadBfrPtr TotalByteCnt =
     (if 0 < sint ByteCount
      then
        (case FlashRead_chunk s Address ByteCount Command WriteBfrPtr ReadBfrPtr
                TotalByteCnt of
           Inl e \<Rightarrow> Inl e
         | Inr (s', Address', ByteCount') \<Rightarrow>
             FlashRead_loop s' Address' ByteCount' Command WriteBfrPtr ReadBfrPtr TotalByteCnt)
      else Inr s)"
  by pat_completeness auto
termination
proof (relation "measure (\<lambda>(s, r). length (script s))")
  show "wf (measure (\<lambda>(s :: qspi, r :: u32 \<times> u32 \<times> u8 \<times> nat \<times> nat \<times> u32). length (script s)))"
    by simp
next
  fix s :: qspi and Address ByteCount :: u32 and Command :: u8
    and WriteBfrPtr ReadBfrPtr :: nat and TotalByteCnt :: u32
    and x2 :: "qspi \<times> u32 \<times> u32" and s' :: qspi and y :: "u32 \<times> u32" and Address' ByteCount' :: u32
  assume c: "FlashRead_chunk s Address ByteCount Command WriteBfrPtr ReadBfrPtr TotalByteCnt = Inr x2"
    and x: "(s', y) = x2"
  have g: "script (snd (GetRealAddr s Address)) = script s"
    by (simp add: GetRealAddr_def XQspiPs_SetSlaveSelect_def Let_def
        split: connection_mode.splits)
  have b: "script (SendBankSelect t WriteBfrPtr k) = script t" for t k
    by (simp add: SendBankSelect_def transfer_tx_def Let_def)
  have r: "transfer_rx t bs = Inr (st, rcv, t') \<Longrightarrow> length (script t') < length (script t)"
    for t bs st rcv t'
    by (auto simp: transfer_rx_def split: list.splits)
  from c x have "length (script s') < length (script s)"
    unfolding FlashRead_chunk_def Let_def
    apply (cases "GetRealAddr s Address")
    apply (insert g)
    apply (auto split: option.splits sum.splits if_splits dest!: r simp: b)
    done
  then show "((s', Address', ByteCount', Command, WriteBfrPtr, ReadBfrPtr, TotalByteCnt),
          s, Address, ByteCount, Command, WriteBfrPtr, ReadBfrPtr, TotalByteCnt)
         \<in> measure (\<lambda>(s, r). length (script s))"
    by simp
qed

definition FlashRead :: "qspi \<Rightarrow> u32 \<Rightarrow> u32 \<Rightarrow> u8 \<Rightarrow> nat \<Rightarrow> nat \<Rightarrow> fault + qspi" where
  "FlashRead s Address ByteCount Command WriteBfrPtr ReadBfrPtr =
     FlashRead_loop s Address ByteCount Command WriteBfrPtr ReadBfrPtr ByteCount"

subsection \<open>Update\<close>

text \<open>
  \<open>for (Page = 0; Page < Page_cnt; Page++)\<close> of \<open>update_flash\<close>; \<open>Page\<close> and
  \<open>Page_cnt\<close> are \<open>int\<close>, so the comparison is signed.
\<close>

function write_pages :: "qspi \<Rightarrow> u32 \<Rightarrow> u32 \<Rightarrow> nat \<Rightarrow> fault + qspi" where
  "write_pages s Page Page_cnt write_buffer =
     (if Page <s Page_cnt
      then
        (case FlashWrite s (Page * PageSize (cfg s) + BIN_START_ADDRESS) (PageSize (cfg s))
                WRITE_CMD (write_buffer + unat (Page * PageSize (cfg s))) of
           Inl e \<Rightarrow> Inl e
         | Inr s' \<Rightarrow> write_pages s' (Page + 1) Page_cnt write_buffer)
      else Inr s)"
  by pat_completeness auto
termination
  apply (relation "measure (\<lambda>(s, Page, Page_cnt, w). nat (sint Page_cnt - sint Page))")
   apply simp
  subgoal for s Page Page_cnt write_buffer s'
    using sint_ge [of Page] sint_lt [of Page_cnt]
    by (simp add: word_sless_alt sint_word_add signed_take_bit_int_eq_self)
  done


subsection \<open>Concrete states\<close>

text \<open>
  A driver state with the given topology, manufacturer, table index and device script;
  the U_PAGE mask is bit 28, the register and the memory are zero and the bus log is empty.
  With manufacturer 0 and index 0 it is the state before \<open>FlashReadID\<close>, as the globals
  are zero-initialised.
\<close>

definition driver_state ::
  "connection_mode \<Rightarrow> u32 \<Rightarrow> u32 \<Rightarrow> (xstatus \<times> u8 list) list \<Rightarrow> qspi" where
  "driver_state m mk idx sc =
     \<lparr>ConnectionMode = m, U_PAGE_MASK = 0x10000000, LqspiCr = 0, cs_asserts = 0,
      FlashMake = mk, FCTIndex = idx, mem = (\<lambda>a. 0), bus = [], script = sc\<rparr>"

subsection \<open>Notions used to state the properties\<close>

text \<open>A manufacturer byte, a size-code byte, that some row of the table carries.\<close>

definition catalog_make :: "u8 \<Rightarrow> bool" where
  "catalog_make b \<longleftrightarrow> b \<in> ManufacturerID ` set Flash_Config_Table"

definition catalog_size :: "u8 \<Rightarrow> bool" where
  "catalog_size b \<longleftrightarrow> b \<in> DeviceIDMemSize ` set Flash_Config_Table"

text \<open>The value a call returned, if it returned.\<close>

definition returned :: "fault + 'a \<Rightarrow> 'a option" where
  "returned r = (case r of Inl e \<Rightarrow> None | Inr x \<Rightarrow> Some x)"

text \<open>The loops are unfolded one step at a time in the proofs.\<close>

declare poll_status.simps [simp del] poll_flag_status.simps [simp del]
  DieErase_loop.simps [simp del] FlashErase_loop.simps [simp del]
  FlashRead_loop.simps [simp del] write_pages.simps [simp del]

text \<open>A status answer with bit 0 (write in progress) of \<open>FlashStatus[1]\<close> set.\<close>

definition busy :: "xstatus \<times> u8 list \<Rightarrow> bool" where
  "busy r \<longleftrightarrow> (rx_bytes 2 (snd r) ! 1) AND 0x01 \<noteq> 0"

text \<open>
  The number of status reads the polling loop makes on a script: it reads while the
  answers are busy, and once more for the first answer that is not.
\<close>

definition polls_needed :: "(xstatus \<times> u8 list) list \<Rightarrow> nat" where
  "polls_needed sc = Suc (length (takeWhile busy sc))"

text \<open>The transfers one call of \<open>SendBankSelect\<close> makes, and what it leaves in memory.\<close>

definition bank_select_frames :: "qspi \<Rightarrow> u32 \<Rightarrow> xfer list" where
  "bank_select_frames s BankSel =
     (if FlashMake s = ucast MICRON_ID_BYTE0
      then [Send [WRITE_ENABLE_CMD], Send [EXTADD_REG_WR, ucast BankSel]] else []) @
     (if FlashMake s = ucast SPANSION_ID_BYTE0
      then [Send [BANK_REG_WR, ucast BankSel]] else [])"

definition bank_select_mem :: "qspi \<Rightarrow> nat \<Rightarrow> u32 \<Rightarrow> nat \<Rightarrow> u8" where
  "bank_select_mem s W BankSel =
     (if FlashMake s = ucast MICRON_ID_BYTE0
      then (mem s)(W := EXTADD_REG_WR, W + 1 := ucast BankSel)
      else if FlashMake s = ucast SPANSION_ID_BYTE0
      then (mem s)(W := BANK_REG_WR, W + 1 := ucast BankSel)
      else mem s)"

text \<open>The three address bytes of a command frame, as \<open>FlashWrite\<close> computes them.\<close>

definition addr3 :: "u32 \<Rightarrow> u8 list" where
  "addr3 a = [ucast (drop_bit 16 (a AND 0xFF0000)), ucast (drop_bit 8 (a AND 0xFF00)),
              ucast (a AND 0xFF)]"

text \<open>The flag-status read that only a multi-die Micron part gets.\<close>

definition flag_read :: "qspi \<Rightarrow> xfer list" where
  "flag_read s = (if multi_die_micron s then [Exchange [READ_FLAG_STATUS_CMD, 0]] else [])"

text \<open>The state \<open>GetRealAddr\<close> leaves behind.\<close>

definition chip_select :: "qspi \<Rightarrow> u32 \<Rightarrow> qspi" where
  "chip_select s Address =
     (if ConnectionMode s = XQSPIPS_CONNECTION_MODE_STACKED
      then s\<lparr>LqspiCr := (if Address AND FlashDeviceSize (cfg s) \<noteq> 0
                          then LqspiCr s OR U_PAGE_MASK s
                          else LqspiCr s AND NOT (U_PAGE_MASK s)),
             cs_asserts := Suc (cs_asserts s)\<rparr>
      else s)"

text \<open>
  A flag-status answer with bit 7 of \<open>FlagStatus[1]\<close> clear, on which \<open>DieErase\<close> polls
  again, and the number of flag-status reads its loop makes on a script.
\<close>

definition flag_pending :: "xstatus \<times> u8 list \<Rightarrow> bool" where
  "flag_pending r \<longleftrightarrow> (rx_bytes 2 (snd r) ! 1) AND 0x80 \<noteq> 0x80"

definition flag_polls_needed :: "(xstatus \<times> u8 list) list \<Rightarrow> nat" where
  "flag_polls_needed sc = Suc (length (takeWhile flag_pending sc))"

text \<open>The part of the state that no transfer touches.\<close>

definition regs :: "qspi \<Rightarrow> connection_mode \<times> u32 \<times> u32 \<times> u32 \<times> u32" where
  "regs s = (ConnectionMode s, U_PAGE_MASK s, LqspiCr s, FlashMake s, FCTIndex s)"

text \<open>Kinds of transfer, told apart by the command byte and the length of the frame.\<close>

fun is_sector_erase :: "xfer \<Rightarrow> bool" where
  "is_sector_erase (Send (c # bs)) = (c = SEC_ERASE_CMD)"
| "is_sector_erase e = False"

fun is_bank_select :: "xfer \<Rightarrow> bool" where
  "is_bank_select (Send [c, b]) = (c = EXTADD_REG_WR \<or> c = BANK_REG_WR)"
| "is_bank_select e = False"

fun is_page_program :: "xfer \<Rightarrow> bool" where
  "is_page_program (Send (c # bs)) = (c = WRITE_CMD)"
| "is_page_program e = False"

text \<open>The transfers a call has added to the bus log.\<close>

definition new_bus :: "qspi \<Rightarrow> qspi \<Rightarrow> xfer list" where
  "new_bus s s' = drop (length (bus s)) (bus s')"

text \<open>
  The bank-register write of one call of \<open>SendBankSelect\<close>: one frame for Micron and
  for Spansion, none for the other manufacturers.
\<close>

definition bank_writes :: "qspi \<Rightarrow> u32 \<Rightarrow> xfer list" where
  "bank_writes s b = filter is_bank_select (bank_select_frames s b)"

text \<open>
  The condition under which \<open>FlashErase\<close> increments \<open>NumSect\<close>, and the number of
  sectors it then erases.
\<close>

definition boundary_overlap :: "qspi \<Rightarrow> u32 \<Rightarrow> u32 \<Rightarrow> bool" where
  "boundary_overlap s Address ByteCount \<longleftrightarrow>
     (Address + ByteCount) AND SectMask (cfg s) =
     (Address + (ByteCount div SectSize (cfg s) + 1) * SectSize (cfg s)) AND SectMask (cfg s)"

definition sectors_to_erase :: "qspi \<Rightarrow> u32 \<Rightarrow> u32 \<Rightarrow> u32" where
  "sectors_to_erase s Address ByteCount =
     (if boundary_overlap s Address ByteCount
      then ByteCount div SectSize (cfg s) + 1 + 1 else ByteCount div SectSize (cfg s) + 1)"

text \<open>The sector-erase frame, and the polls that follow it.\<close>

definition sector_frame :: "u32 \<Rightarrow> xfer" where
  "sector_frame RealAddr =
     Send [SEC_ERASE_CMD, ucast (drop_bit 16 RealAddr), ucast (drop_bit 8 RealAddr),
           ucast (RealAddr AND 0xFF)]"

definition erase_polls :: "qspi \<Rightarrow> xfer list" where
  "erase_polls s =
     flag_read s @
     replicate (polls_needed (if multi_die_micron s then tl (script s) else script s))
       (Exchange [READ_STATUS_CMD, 0]) @
     flag_read s"

text \<open>
  The banks for which a select is emitted when one is emitted only for a bank other than
  the one selected before; \<open>None\<close> says that none has been selected yet.
\<close>

fun bank_changes :: "u32 option \<Rightarrow> u32 list \<Rightarrow> u32 list" where
  "bank_changes prev [] = []"
| "bank_changes prev (b # bs) = (if prev = Some b then [] else [b]) @ bank_changes (Some b) bs"

text \<open>The banks of the first \<open>n\<close> sectors from \<open>Address\<close> on.\<close>

definition sector_banks :: "qspi \<Rightarrow> u32 \<Rightarrow> nat \<Rightarrow> u32 list" where
  "sector_banks s Address n =
     map (\<lambda>j. real_addr s (Address + of_nat j * SectSize (cfg s)) div SIXTEENMB) [0..<n]"

text \<open>A device that answers every status read with bit 0 clear.\<close>

definition all_ready :: "(xstatus \<times> u8 list) list \<Rightarrow> bool" where
  "all_ready sc \<longleftrightarrow> list_all (\<lambda>r. \<not> busy r) sc"

text \<open>The rounded-up quotient.\<close>

definition ceil_div :: "nat \<Rightarrow> nat \<Rightarrow> nat" where
  "ceil_div a b = (a + b - 1) div b"

text \<open>
  \<open>RealByteCnt\<close> as \<open>FlashRead\<close> first computes it, and the dummy bytes it adds.
\<close>

definition chunk_payload :: "u32 \<Rightarrow> u32 \<Rightarrow> u32" where
  "chunk_payload Address ByteCount =
     (if Address AND BANKMASK \<noteq> (Address + ByteCount) AND BANKMASK
      then (Address AND BANKMASK) + SIXTEENMB - Address else ByteCount)"

definition dummy_bytes :: "u8 \<Rightarrow> u32" where
  "dummy_bytes Command = (if dummy_read Command then DUMMY_SIZE else 0)"

text \<open>
  The chunks of a read as the spec describes them, as pairs of a logical address and a
  payload size: the payload is the bytes that remain to the next 16 MB bank boundary when
  the span crosses one, and the remaining byte count otherwise; the next chunk starts at
  the next bank boundary.
\<close>

function bank_chunks :: "nat \<Rightarrow> nat \<Rightarrow> (nat \<times> nat) list" where
  "bank_chunks a n =
     (if n = 0 then []
      else
        (let k = (if a div 2 ^ 24 \<noteq> (a + n) div 2 ^ 24
                  then a div 2 ^ 24 * 2 ^ 24 + 2 ^ 24 - a else n)
         in (a, k) # bank_chunks (a div 2 ^ 24 * 2 ^ 24 + 2 ^ 24) (n - k)))"
  by pat_completeness auto
termination
proof (relation "measure snd")
  show "wf (measure (snd :: nat \<times> nat \<Rightarrow> nat))" by simp
next
  fix a n k :: nat
  assume n: "n \<noteq> 0"
    and k: "k = (if a div 2 ^ 24 \<noteq> (a + n) div 2 ^ 24
                 then a div 2 ^ 24 * 2 ^ 24 + 2 ^ 24 - a else n)"
  have "a mod 2 ^ 24 < (2 ^ 24 :: nat)" by simp
  moreover have "a = a div 2 ^ 24 * 2 ^ 24 + a mod 2 ^ 24" by simp
  ultimately have "0 < a div 2 ^ 24 * 2 ^ 24 + 2 ^ 24 - a" by linarith
  with n k have "0 < k" by simp
  with n show "((a div 2 ^ 24 * 2 ^ 24 + 2 ^ 24, n - k), (a, n)) \<in> measure snd"
    by simp
qed

declare bank_chunks.simps [simp del]


text \<open>
  The transfers \<open>FlashRead\<close> makes for the bank selection of the chunk at the logical
  address \<open>a\<close>: those of \<open>SendBankSelect\<close> for the bank of the translated address, on a
  device larger than 16 MB.
\<close>

definition read_select :: "qspi \<Rightarrow> nat \<Rightarrow> xfer list" where
  "read_select s a =
     (if SIXTEENMB < FlashDeviceSize (cfg s)
      then bank_select_frames s (real_addr s (of_nat a) div SIXTEENMB) else [])"

text \<open>
  The manufacturers for which \<open>SendBankSelect\<close> writes a bank register, and the frame of
  that write: the extended-address register of Micron, the bank register of Spansion.
\<close>

definition selects_bank :: "qspi \<Rightarrow> bool" where
  "selects_bank s \<longleftrightarrow>
     FlashMake s = ucast MICRON_ID_BYTE0 \<or> FlashMake s = ucast SPANSION_ID_BYTE0"

definition bank_write :: "qspi \<Rightarrow> u32 \<Rightarrow> xfer" where
  "bank_write s b =
     Send [if FlashMake s = ucast MICRON_ID_BYTE0 then EXTADD_REG_WR else BANK_REG_WR, ucast b]"

text \<open>
  The spans of a read that the 4-bit \<open>BANKMASK\<close> tells apart: a span that lies in one
  bank, or one that starts below \<open>2^28\<close> and ends below \<open>2^28 + 2^24\<close>, and below
  \<open>2^28\<close> when it starts in bank 0. No row of the table has more than \<open>2^28\<close> bytes.
\<close>

definition within_banks :: "u32 \<Rightarrow> u32 \<Rightarrow> bool" where
  "within_banks Address ByteCount \<longleftrightarrow>
     (let a = unat Address; n = unat ByteCount
      in (a div 2 ^ 24 = (a + n) div 2 ^ 24 \<and> a + n < 2 ^ 32) \<or>
         (a < 2 ^ 28 \<and> a + n < 2 ^ 28 + 2 ^ 24 \<and> (a < 2 ^ 24 \<longrightarrow> a + n < 2 ^ 28)))"

section \<open>Properties\<close>

subsection \<open>The table\<close>

lemma table_length: "length Flash_Config_Table = 33"
  by (simp add: Flash_Config_Table_def)

lemma cfg_in_table: "unat (FCTIndex s) < 33 \<Longrightarrow> cfg s \<in> set Flash_Config_Table"
  unfolding cfg_def by (rule nth_mem) (simp add: table_length)

lemma table_device_size:
  "r \<in> set Flash_Config_Table \<Longrightarrow>
     FlashDeviceSize r = 2 ^ 24 \<or> FlashDeviceSize r = 2 ^ 25 \<or>
     FlashDeviceSize r = 2 ^ 26 \<or> FlashDeviceSize r = 2 ^ 27"
  by (auto simp: Flash_Config_Table_def row_def)

lemma clear_single_bit:
  fixes a :: u32
  assumes "a AND 2 ^ n \<noteq> 0"
  shows "a AND NOT (2 ^ n) = a - 2 ^ n"
  using assms
  by (simp add: and_exp_eq_0_iff_not_bit bit_not_iff_eq disjunctive_diff_eq_and_not)

lemma stacked_upper_address:
  fixes a :: u32
  assumes "unat (FCTIndex s) < 33" and "a AND FlashDeviceSize (cfg s) \<noteq> 0"
  shows "a AND NOT (FlashDeviceSize (cfg s)) = a - FlashDeviceSize (cfg s)"
proof -
  from assms(1) have "cfg s \<in> set Flash_Config_Table" by (rule cfg_in_table)
  then obtain n :: nat where "FlashDeviceSize (cfg s) = 2 ^ n"
    using table_device_size by blast
  with assms(2) show ?thesis by (simp add: clear_single_bit)
qed

lemma device_size_nonzero:
  assumes "unat (FCTIndex s) < 33"
  shows "FlashDeviceSize (cfg s) \<noteq> 0"
  using table_device_size [OF cfg_in_table [OF assms]] by auto

subsection \<open>C1: address translation\<close>

text \<open>
  C1. For every logical address \<open>a\<close>, \<open>GetRealAddr\<close> is the identity in Single topology
  and gives \<open>a / 2\<close> in Parallel topology, both without touching the state. In Stacked
  topology, with \<open>FCTIndex\<close> a row of the table, the result is \<open>a\<close> minus the device size
  exactly when \<open>a & deviceSize \<noteq> 0\<close> and \<open>a\<close> itself otherwise; the LQSPI configuration
  register then has the U_PAGE bits set in the first case and cleared in the second, and
  the chip select has been asserted once more.
\<close>

theorem C1_GetRealAddr_translation:
  "(ConnectionMode s = XQSPIPS_CONNECTION_MODE_SINGLE \<longrightarrow>
      GetRealAddr s a = (Some a, s)) \<and>
   (ConnectionMode s = XQSPIPS_CONNECTION_MODE_PARALLEL \<longrightarrow>
      GetRealAddr s a = (Some (a div 2), s)) \<and>
   (ConnectionMode s = XQSPIPS_CONNECTION_MODE_STACKED \<and> unat (FCTIndex s) < 33 \<longrightarrow>
      (a AND FlashDeviceSize (cfg s) \<noteq> 0 \<longrightarrow>
         GetRealAddr s a =
           (Some (a - FlashDeviceSize (cfg s)),
            s\<lparr>LqspiCr := LqspiCr s OR U_PAGE_MASK s, cs_asserts := Suc (cs_asserts s)\<rparr>)) \<and>
      (a AND FlashDeviceSize (cfg s) = 0 \<longrightarrow>
         GetRealAddr s a =
           (Some a,
            s\<lparr>LqspiCr := LqspiCr s AND NOT (U_PAGE_MASK s),
              cs_asserts := Suc (cs_asserts s)\<rparr>)) \<and>
      (fst (GetRealAddr s a) = Some (a - FlashDeviceSize (cfg s))
         \<longleftrightarrow> a AND FlashDeviceSize (cfg s) \<noteq> 0) \<and>
      (LqspiCr (snd (GetRealAddr s a)) AND U_PAGE_MASK s =
         (if a AND FlashDeviceSize (cfg s) \<noteq> 0 then U_PAGE_MASK s else 0)))"
proof (intro conjI impI)
  assume "ConnectionMode s = XQSPIPS_CONNECTION_MODE_SINGLE"
  then show "GetRealAddr s a = (Some a, s)" by (simp add: GetRealAddr_def)
next
  assume "ConnectionMode s = XQSPIPS_CONNECTION_MODE_PARALLEL"
  then show "GetRealAddr s a = (Some (a div 2), s)" by (simp add: GetRealAddr_def)
next
  assume m: "ConnectionMode s = XQSPIPS_CONNECTION_MODE_STACKED \<and> unat (FCTIndex s) < 33"
    and u: "a AND FlashDeviceSize (cfg s) \<noteq> 0"
  from m u have "a AND NOT (FlashDeviceSize (cfg s)) = a - FlashDeviceSize (cfg s)"
    by (simp add: stacked_upper_address)
  with m u show "GetRealAddr s a =
      (Some (a - FlashDeviceSize (cfg s)),
       s\<lparr>LqspiCr := LqspiCr s OR U_PAGE_MASK s, cs_asserts := Suc (cs_asserts s)\<rparr>)"
    by (simp add: GetRealAddr_def XQspiPs_SetSlaveSelect_def)
next
  assume m: "ConnectionMode s = XQSPIPS_CONNECTION_MODE_STACKED \<and> unat (FCTIndex s) < 33"
    and l: "a AND FlashDeviceSize (cfg s) = 0"
  then show "GetRealAddr s a =
      (Some a, s\<lparr>LqspiCr := LqspiCr s AND NOT (U_PAGE_MASK s),
                 cs_asserts := Suc (cs_asserts s)\<rparr>)"
    by (simp add: GetRealAddr_def XQspiPs_SetSlaveSelect_def)
next
  assume m: "ConnectionMode s = XQSPIPS_CONNECTION_MODE_STACKED \<and> unat (FCTIndex s) < 33"
  then have nz: "FlashDeviceSize (cfg s) \<noteq> 0" by (simp add: device_size_nonzero)
  show "fst (GetRealAddr s a) = Some (a - FlashDeviceSize (cfg s))
          \<longleftrightarrow> a AND FlashDeviceSize (cfg s) \<noteq> 0"
  proof (cases "a AND FlashDeviceSize (cfg s) = 0")
    case True
    with m nz show ?thesis by (simp add: GetRealAddr_def)
  next
    case False
    with m have "a AND NOT (FlashDeviceSize (cfg s)) = a - FlashDeviceSize (cfg s)"
      by (simp add: stacked_upper_address)
    with m False show ?thesis by (simp add: GetRealAddr_def)
  qed
next
  assume m: "ConnectionMode s = XQSPIPS_CONNECTION_MODE_STACKED \<and> unat (FCTIndex s) < 33"
  then show "LqspiCr (snd (GetRealAddr s a)) AND U_PAGE_MASK s =
      (if a AND FlashDeviceSize (cfg s) \<noteq> 0 then U_PAGE_MASK s else 0)"
    by (simp add: GetRealAddr_def XQspiPs_SetSlaveSelect_def Let_def and.assoc
        bit.conj_disj_distrib2)
qed

theorem C1_GetRealAddr_translation_witness:
  "GetRealAddr (driver_state XQSPIPS_CONNECTION_MODE_SINGLE 0x20 12 []) 0x123456 =
     (Some 0x123456, driver_state XQSPIPS_CONNECTION_MODE_SINGLE 0x20 12 []) \<and>
   GetRealAddr (driver_state XQSPIPS_CONNECTION_MODE_PARALLEL 0x20 14 []) 0x123456 =
     (Some 0x91A2B, driver_state XQSPIPS_CONNECTION_MODE_PARALLEL 0x20 14 []) \<and>
   fst (GetRealAddr (driver_state XQSPIPS_CONNECTION_MODE_STACKED 0x20 13 []) 0x2000010) =
     Some 0x10 \<and>
   LqspiCr (snd (GetRealAddr (driver_state XQSPIPS_CONNECTION_MODE_STACKED 0x20 13 [])
              0x2000010)) = 0x10000000 \<and>
   fst (GetRealAddr (driver_state XQSPIPS_CONNECTION_MODE_STACKED 0x20 13 []) 0x1000010) =
     Some 0x1000010 \<and>
   LqspiCr (snd (GetRealAddr (driver_state XQSPIPS_CONNECTION_MODE_STACKED 0x20 13 [])
              0x1000010)) = 0"
  using
    C1_GetRealAddr_translation
      [of "driver_state XQSPIPS_CONNECTION_MODE_SINGLE 0x20 12 []" "0x123456"]
    C1_GetRealAddr_translation
      [of "driver_state XQSPIPS_CONNECTION_MODE_PARALLEL 0x20 14 []" "0x123456"]
    C1_GetRealAddr_translation
      [of "driver_state XQSPIPS_CONNECTION_MODE_STACKED 0x20 13 []" "0x2000010"]
    C1_GetRealAddr_translation
      [of "driver_state XQSPIPS_CONNECTION_MODE_STACKED 0x20 13 []" "0x1000010"]
  by (simp add: driver_state_def cfg_def Flash_Config_Table_def row_def)

subsection \<open>C10: the default case of the translation\<close>

text \<open>
  C10. For every address and every state, if the connection mode is none of Single,
  Stacked and Parallel, no branch of \<open>GetRealAddr\<close> assigns the local \<open>RealAddr\<close> that it
  returns: the result is no value at all (\<open>None\<close>), whatever the address, and the state
  is left as it was.
\<close>

theorem C10_GetRealAddr_unassigned:
  assumes "ConnectionMode s \<noteq> XQSPIPS_CONNECTION_MODE_SINGLE"
    and "ConnectionMode s \<noteq> XQSPIPS_CONNECTION_MODE_STACKED"
    and "ConnectionMode s \<noteq> XQSPIPS_CONNECTION_MODE_PARALLEL"
  shows "GetRealAddr s a = (None, s)"
  using assms by (cases "ConnectionMode s") (simp_all add: GetRealAddr_def)

theorem C10_GetRealAddr_unassigned_witness:
  "GetRealAddr (driver_state XQSPIPS_CONNECTION_MODE_OTHER 0x20 12 []) 0x123456 =
     (None, driver_state XQSPIPS_CONNECTION_MODE_OTHER 0x20 12 [])"
  using C10_GetRealAddr_unassigned
      [of "driver_state XQSPIPS_CONNECTION_MODE_OTHER 0x20 12 []" "0x123456"]
  by (simp add: driver_state_def)

subsection \<open>Identification\<close>

lemma catalog_make_iff:
  "catalog_make b \<longleftrightarrow> b = 0x01 \<or> b = 0x20 \<or> b = 0xEF \<or> b = 0xC2"
  by (auto simp: catalog_make_def Flash_Config_Table_def row_def flash_defs)

lemma catalog_size_iff:
  "catalog_size b \<longleftrightarrow> b = 0x18 \<or> b = 0x19 \<or> b = 0x20 \<or> b = 0x21 \<or> b = 0x1A \<or> b = 0x1B"
  by (auto simp: catalog_size_def Flash_Config_Table_def row_def flash_defs)

lemma load4: "load m p 4 = [m p, m (p + 1), m (p + 2), m (p + 3)]"
  by (simp add: load_def upt_rec numeral_eq_Suc)

text \<open>
  C6. When the device answers the ID read with the bytes \<open>0x20, 0xBA, 0x19\<close> (Micron,
  256 Mb) behind the echo of the command, and the topology is Single, \<open>FlashReadID\<close>
  returns \<open>XST_SUCCESS\<close> with \<open>FCTIndex = MICRON_INDEX_START + 3\<close>; that row has the
  Micron manufacturer byte, the 256 Mb size code and the geometry of one 256 Mb chip.
\<close>

theorem C6_identify_micron_256_single:
  assumes "ConnectionMode s = XQSPIPS_CONNECTION_MODE_SINGLE"
    and "script s = (XST_SUCCESS, [b0, 0x20, 0xBA, 0x19]) # rest"
  shows "\<exists>s'. FlashReadID s W R = Inr (XST_SUCCESS, s') \<and>
           FCTIndex s' = MICRON_INDEX_START + 3 \<and>
           FlashMake s' = ucast MICRON_ID_BYTE0 \<and>
           ManufacturerID (cfg s') = MICRON_ID_BYTE0 \<and>
           DeviceIDMemSize (cfg s') = MICRON_ID_BYTE2_256 \<and>
           cfg s' = row 0x10000 0x200 256 0x20000 0x2000000 MICRON_ID_BYTE0
                      MICRON_ID_BYTE2_256 0xFFFF0000 1"
  using assms
  by (simp add: FlashReadID_def Let_def transfer_rx_def rx_bytes_def flash_defs load4 set_index_if_def
      select_index_def store_def cfg_def Flash_Config_Table_def row_def)

theorem C6_identify_micron_256_single_witness:
  "\<exists>s'. FlashReadID (driver_state XQSPIPS_CONNECTION_MODE_SINGLE 0 0
                        [(XST_SUCCESS, [0xFF, 0x20, 0xBA, 0x19])]) 0 16 =
           Inr (XST_SUCCESS, s') \<and> FCTIndex s' = 12 \<and> FlashMake s' = 0x20 \<and>
         NumSect (cfg s') = 0x200 \<and> FlashDeviceSize (cfg s') = 0x2000000"
  using C6_identify_micron_256_single
    [of "driver_state XQSPIPS_CONNECTION_MODE_SINGLE 0 0 [(XST_SUCCESS, [0xFF, 0x20, 0xBA, 0x19])]"
        "0xFF" "[]" 0 16]
  by (auto simp add: driver_state_def flash_defs row_def)

text \<open>
  C7, as amended. Take an ID response whose size code is in no row of the table, or whose
  manufacturer byte is in no row while \<open>FlashMake\<close> still has its initial value 0. If
  the transfer succeeds, \<open>FlashReadID\<close> returns \<open>XST_SUCCESS\<close> and leaves \<open>FCTIndex\<close>
  as it was; \<open>FlashMake\<close> is unchanged when the manufacturer byte is in no row, and is
  the manufacturer byte of the response when it is in one. If the transfer fails,
  \<open>FlashReadID\<close> returns \<open>XST_FAILURE\<close> and both globals are unchanged.
\<close>

theorem C7_unrecognised_device:
  assumes "script s = (st, [b0, id0, id1, id2]) # rest"
    and "\<not> catalog_size id2 \<or> (\<not> catalog_make id0 \<and> FlashMake s = 0)"
  shows "if st = XST_SUCCESS
         then \<exists>s'. FlashReadID s W R = Inr (XST_SUCCESS, s') \<and>
                FCTIndex s' = FCTIndex s \<and>
                FlashMake s' = (if catalog_make id0 then ucast id0 else FlashMake s)
         else \<exists>s'. FlashReadID s W R = Inr (XST_FAILURE, s') \<and>
                FCTIndex s' = FCTIndex s \<and> FlashMake s' = FlashMake s"
proof (cases "st = XST_SUCCESS")
  case False
  with assms(1) show ?thesis
    by (simp add: FlashReadID_def Let_def transfer_rx_def rx_bytes_def flash_defs load4)
next
  case True
  from assms(2) show ?thesis
  proof
    assume "\<not> catalog_size id2"
    with True assms(1) show ?thesis
      by (simp add: FlashReadID_def Let_def transfer_rx_def rx_bytes_def flash_defs load4 set_index_if_def
          store_def catalog_size_iff catalog_make_iff)
  next
    assume "\<not> catalog_make id0 \<and> FlashMake s = 0"
    with True assms(1) show ?thesis
      by (simp add: FlashReadID_def Let_def transfer_rx_def rx_bytes_def flash_defs load4 set_index_if_def
          store_def catalog_size_iff catalog_make_iff)
  qed
qed

theorem C7_unrecognised_device_witness:
  "\<exists>s'. FlashReadID (driver_state XQSPIPS_CONNECTION_MODE_SINGLE 0 0
                        [(XST_SUCCESS, [0xFF, 0xFF, 0xFF, 0xFF])]) 0 16 =
           Inr (XST_SUCCESS, s') \<and> FCTIndex s' = 0 \<and> FlashMake s' = 0"
  using C7_unrecognised_device
    [of "driver_state XQSPIPS_CONNECTION_MODE_SINGLE 0 0 [(XST_SUCCESS, [0xFF, 0xFF, 0xFF, 0xFF])]"
        XST_SUCCESS "0xFF" "0xFF" "0xFF" "0xFF" "[]" 0 16]
  by (simp add: driver_state_def catalog_size_iff catalog_make_iff)

text \<open>
  C7 as stated fails: the size code \<open>0x17\<close> is in no row, and from the initial state the
  response \<open>0x20, 0xBA, 0x17\<close> changes the manufacturer from 0 to \<open>0x20\<close>.
\<close>

theorem C7_manufacturer_changed_counterexample:
  "\<not> catalog_size 0x17 \<and>
   FlashMake (driver_state XQSPIPS_CONNECTION_MODE_SINGLE 0 0
                [(XST_SUCCESS, [0xFF, 0x20, 0xBA, 0x17])]) = 0 \<and>
   map_option (FlashMake \<circ> snd)
     (returned (FlashReadID (driver_state XQSPIPS_CONNECTION_MODE_SINGLE 0 0
                               [(XST_SUCCESS, [0xFF, 0x20, 0xBA, 0x17])]) 0 16)) = Some 0x20"
  by (simp add: catalog_size_iff driver_state_def returned_def
      FlashReadID_def Let_def transfer_rx_def rx_bytes_def flash_defs load4 set_index_if_def
          store_def)

subsection \<open>Memory, bank selection and polling\<close>

lemma load_Suc: "load m p (Suc n) = m p # load m (Suc p) n"
proof -
  have "[0..<Suc n] = 0 # map Suc [0..<n]"
    by (simp add: upt_conv_Cons map_Suc_upt del: upt_Suc)
  then show ?thesis by (simp add: load_def comp_def)
qed

lemma load_0 [simp]: "load m p 0 = []"
  by (simp add: load_def)

lemma load2: "load m p 2 = [m p, m (p + 1)]"
  by (simp add: numeral_2_eq_2 load_Suc)

lemma load1: "load m p 1 = [m p]"
  using load_Suc [of m p 0] by simp

lemma load_header: "load m p (n + 4) = [m p, m (p + 1), m (p + 2), m (p + 3)] @ load m (p + 4) n"
  by (simp add: numeral_eq_Suc load_Suc)

lemma load_cong: "(\<And>i. i < n \<Longrightarrow> m (p + i) = m' (p + i)) \<Longrightarrow> load m p n = load m' p n"
  by (simp add: load_def)

lemma length_load [simp]: "length (load m p n) = n"
  by (simp add: load_def)

lemma SendBankSelect_eq:
  "SendBankSelect s W b =
     s\<lparr>mem := bank_select_mem s W b, bus := bus s @ bank_select_frames s b\<rparr>"
  by (simp add: SendBankSelect_def bank_select_mem_def bank_select_frames_def Let_def
      transfer_tx_def flash_defs load2)

lemma transfer_rx_Nil: "script s = [] \<Longrightarrow> transfer_rx s bs = Inl Blocked"
  by (simp add: transfer_rx_def)

lemma transfer_rx_2:
  "script s = r # rest \<Longrightarrow>
   transfer_rx s [a, b] =
     Inr (fst r, rx_bytes 2 (snd r), s\<lparr>bus := bus s @ [Exchange [a, b]], script := rest\<rparr>)"
  by (simp add: transfer_rx_def numeral_2_eq_2 split: prod.splits)

lemma poll_status_eq:
  "poll_status s =
     (if list_all busy (script s) then Inl Blocked
      else Inr (s\<lparr>bus := bus s @ replicate (polls_needed (script s))
                                     (Exchange [READ_STATUS_CMD, 0]),
                  script := drop (polls_needed (script s)) (script s)\<rparr>))"
proof (induction "script s" arbitrary: s)
  case Nil
  then show ?case
    by (subst poll_status.simps) (simp add: transfer_rx_Nil)
next
  case (Cons r rs)
  let ?s1 = "s\<lparr>bus := bus s @ [Exchange [READ_STATUS_CMD, 0]], script := rs\<rparr>"
  have sc: "script s = r # rs" using Cons.hyps(2) by simp
  have ih: "poll_status ?s1 =
     (if list_all busy rs then Inl Blocked
      else Inr (?s1\<lparr>bus := bus ?s1 @ replicate (polls_needed rs) (Exchange [READ_STATUS_CMD, 0]),
                  script := drop (polls_needed rs) rs\<rparr>))"
    using Cons.hyps(1) [of ?s1] by simp
  show ?case
  proof (cases "busy r")
    case True
    then have "poll_status s = poll_status ?s1"
      by (subst poll_status.simps) (simp add: transfer_rx_2 [OF sc] busy_def)
    with True ih sc show ?thesis
      by (simp add: polls_needed_def replicate_app_Cons_same)
  next
    case False
    then have "poll_status s = Inr ?s1"
      by (subst poll_status.simps) (simp add: transfer_rx_2 [OF sc] busy_def)
    with False sc show ?thesis
      by (simp add: polls_needed_def)
  qed
qed

lemma cfg_upd [simp]:
  "cfg (s\<lparr>mem := m\<rparr>) = cfg s" "cfg (s\<lparr>bus := b\<rparr>) = cfg s" "cfg (s\<lparr>script := sc\<rparr>) = cfg s"
  "cfg (s\<lparr>LqspiCr := l\<rparr>) = cfg s" "cfg (s\<lparr>cs_asserts := c\<rparr>) = cfg s"
  "cfg (s\<lparr>FlashMake := k\<rparr>) = cfg s"
  by (simp_all add: cfg_def)

lemma multi_upd [simp]:
  "multi_die_micron (s\<lparr>mem := m\<rparr>) = multi_die_micron s"
  "multi_die_micron (s\<lparr>bus := b\<rparr>) = multi_die_micron s"
  "multi_die_micron (s\<lparr>script := sc\<rparr>) = multi_die_micron s"
  "multi_die_micron (s\<lparr>LqspiCr := l\<rparr>) = multi_die_micron s"
  "multi_die_micron (s\<lparr>cs_asserts := c\<rparr>) = multi_die_micron s"
  by (simp_all add: multi_die_micron_def)

lemma GetRealAddr_eq:
  "GetRealAddr s A =
     (if ConnectionMode s = XQSPIPS_CONNECTION_MODE_OTHER then (None, s)
      else (Some (real_addr s A), chip_select s A))"
  by (simp add: GetRealAddr_def real_addr_def chip_select_def XQspiPs_SetSlaveSelect_def
      Let_def split: connection_mode.splits)

lemma chip_select_fields [simp]:
  "ConnectionMode (chip_select s A) = ConnectionMode s"
  "U_PAGE_MASK (chip_select s A) = U_PAGE_MASK s"
  "FlashMake (chip_select s A) = FlashMake s"
  "FCTIndex (chip_select s A) = FCTIndex s"
  "mem (chip_select s A) = mem s"
  "bus (chip_select s A) = bus s"
  "script (chip_select s A) = script s"
  "cfg (chip_select s A) = cfg s"
  "multi_die_micron (chip_select s A) = multi_die_micron s"
  by (simp_all add: chip_select_def)

lemma bank_select_frames_upd [simp]:
  "bank_select_frames (chip_select s A) b = bank_select_frames s b"
  by (simp add: bank_select_frames_def)

lemma bank_select_mem_far:
  "W + 2 \<le> a \<Longrightarrow> bank_select_mem s W b a = mem s a"
  by (simp add: bank_select_mem_def)

lemma read_flag_status_eq:
  "read_flag_status s =
     (case script s of [] \<Rightarrow> Inl Blocked
      | r # rest \<Rightarrow> Inr (s\<lparr>bus := bus s @ [Exchange [READ_FLAG_STATUS_CMD, 0]],
                            script := rest\<rparr>))"
  by (simp add: read_flag_status_def transfer_rx_def split: list.splits)

lemma unat_plus4: "unat (n :: u32) + 4 < 2 ^ 32 \<Longrightarrow> unat (n + OVERHEAD_SIZE) = unat n + 4"
  by (simp add: OVERHEAD_SIZE_def unat_word_ariths)

lemma SendBankSelect_fields [simp]:
  "ConnectionMode (SendBankSelect s W b) = ConnectionMode s"
  "U_PAGE_MASK (SendBankSelect s W b) = U_PAGE_MASK s"
  "LqspiCr (SendBankSelect s W b) = LqspiCr s"
  "cs_asserts (SendBankSelect s W b) = cs_asserts s"
  "FlashMake (SendBankSelect s W b) = FlashMake s"
  "FCTIndex (SendBankSelect s W b) = FCTIndex s"
  "script (SendBankSelect s W b) = script s"
  "cfg (SendBankSelect s W b) = cfg s"
  "multi_die_micron (SendBankSelect s W b) = multi_die_micron s"
  "bus (SendBankSelect s W b) = bus s @ bank_select_frames s b"
  by (simp_all add: SendBankSelect_eq)

lemma load_SendBankSelect [simp]:
  "load (mem (SendBankSelect s W b)) (W + 4) n = load (mem s) (W + 4) n"
  by (rule load_cong) (simp add: SendBankSelect_eq bank_select_mem_far)

lemma load_header_upd:
  "load (m(W + COMMAND_OFFSET := c, W + ADDRESS_1_OFFSET := a1,
           W + ADDRESS_2_OFFSET := a2, W + ADDRESS_3_OFFSET := a3)) W (n + 4) =
     [c, a1, a2, a3] @ load m (W + 4) n"
proof -
  have "load (m(W + COMMAND_OFFSET := c, W + ADDRESS_1_OFFSET := a1,
           W + ADDRESS_2_OFFSET := a2, W + ADDRESS_3_OFFSET := a3)) (W + 4) n = load m (W + 4) n"
    by (rule load_cong) (simp add: flash_defs)
  then show ?thesis
    unfolding load_header by (simp add: flash_defs)
qed

lemma addr3_truncates:
  "push_bit 16 (ucast (addr3 a ! 0) :: u32) OR push_bit 8 (ucast (addr3 a ! 1)) OR
   ucast (addr3 a ! 2) = a AND 0xFFFFFF"
proof -
  have m: "(0xFF0000 :: u32) = push_bit 16 (mask 8)" "(0xFF00 :: u32) = push_bit 8 (mask 8)"
    "(0xFF :: u32) = mask 8" "(0xFFFFFF :: u32) = mask 24"
    by (simp_all add: mask_eq_exp_minus_1)
  show ?thesis
    unfolding addr3_def m
    apply (rule bit_word_eqI)
    apply (simp add: bit_simps)
    subgoal for n by (cases "16 \<le> n") (auto simp: bit_simps)
    done
qed

subsection \<open>C4: the bus sequence of a page program\<close>

text \<open>
  C4, as amended. Take a call of \<open>FlashWrite\<close> in one of the three topologies whose byte
  count plus the four header bytes does not wrap, and a device that answers: some status
  answer has bit 0 clear, and a multi-die Micron part also answers the two flag-status
  reads. Then the call returns, and the transfers it has added to the bus are exactly: on
  a device larger than 16 MB the bank select of the manufacturer, which is a write enable
  and the extended-address-register write for Micron, the bank-register write for
  Spansion, and nothing for any other manufacturer; the write enable; one transmit of the
  command byte, the three address bytes of the translated address and the payload that
  lies behind the header in the write buffer; one flag-status read iff the part is
  multi-die Micron; status reads, one for every busy answer and one for the first answer
  with bit 0 clear; one more flag-status read iff multi-die Micron. The three address
  bytes are the low 24 bits of the translated address, most significant byte first.
\<close>

theorem C4_FlashWrite_bus_sequence:
  assumes mode: "ConnectionMode s \<noteq> XQSPIPS_CONNECTION_MODE_OTHER"
    and nowrap: "unat ByteCount + 4 < 2 ^ 32"
    and sc: "sc = (if multi_die_micron s then tl (script s) else script s)"
    and resp: "\<not> list_all busy sc"
    and flags: "multi_die_micron s \<longrightarrow> script s \<noteq> [] \<and> polls_needed sc < length sc"
  shows "(\<exists>s'. FlashWrite s Address ByteCount Command W = Inr s' \<and>
           bus s' = bus s @
             (if SIXTEENMB < FlashDeviceSize (cfg s)
              then bank_select_frames s (real_addr s Address div SIXTEENMB) else []) @
             [Send [WRITE_ENABLE_CMD],
              Send (Command # addr3 (real_addr s Address) @
                    load (mem s) (W + 4) (unat ByteCount))] @
             flag_read s @
             replicate (polls_needed sc) (Exchange [READ_STATUS_CMD, 0]) @
             flag_read s) \<and>
         push_bit 16 (ucast (addr3 (real_addr s Address) ! 0) :: u32) OR
           push_bit 8 (ucast (addr3 (real_addr s Address) ! 1)) OR
           ucast (addr3 (real_addr s Address) ! 2) = real_addr s Address AND 0xFFFFFF"
proof (rule conjI)
  show "push_bit 16 (ucast (addr3 (real_addr s Address) ! 0) :: u32) OR
           push_bit 8 (ucast (addr3 (real_addr s Address) ! 1)) OR
           ucast (addr3 (real_addr s Address) ! 2) = real_addr s Address AND 0xFFFFFF"
    by (rule addr3_truncates)
next
  show "\<exists>s'. FlashWrite s Address ByteCount Command W = Inr s' \<and>
           bus s' = bus s @
             (if SIXTEENMB < FlashDeviceSize (cfg s)
              then bank_select_frames s (real_addr s Address div SIXTEENMB) else []) @
             [Send [WRITE_ENABLE_CMD],
              Send (Command # addr3 (real_addr s Address) @
                    load (mem s) (W + 4) (unat ByteCount))] @
             flag_read s @
             replicate (polls_needed sc) (Exchange [READ_STATUS_CMD, 0]) @
             flag_read s"
  proof (cases "multi_die_micron s")
    case False
    with mode resp sc show ?thesis
      unfolding FlashWrite_def GetRealAddr_eq
      by (simp add: Let_def transfer_tx_def unat_plus4 [OF nowrap] load_header_upd
          poll_status_eq addr3_def flag_read_def)
  next
    case True
    with flags obtain r rest
      where r: "script s = r # rest" and len: "polls_needed rest < length rest"
      using sc by (cases "script s") auto
    from True sc r have sc': "sc = rest" by simp
    from True mode resp r len show ?thesis
      unfolding FlashWrite_def GetRealAddr_eq sc'
      by (simp add: Let_def transfer_tx_def unat_plus4 [OF nowrap] load_header_upd
          poll_status_eq read_flag_status_eq addr3_def flag_read_def
          split: list.splits)
  qed
qed

theorem C4_FlashWrite_bus_sequence_witness:
  "\<exists>s'. FlashWrite
           (driver_state XQSPIPS_CONNECTION_MODE_SINGLE 0x20 15
              [(XST_SUCCESS, [0, 0]), (XST_SUCCESS, [0, 1]), (XST_SUCCESS, [0, 0]),
               (XST_SUCCESS, [0, 0x80])])
           0x1234567 2 WRITE_CMD 0 = Inr s' \<and>
         bus s' =
           [Send [0x06], Send [0xC5, 0x01], Send [0x06],
            Send [0x02, 0x23, 0x45, 0x67, 0, 0],
            Exchange [0x70, 0], Exchange [0x05, 0], Exchange [0x05, 0], Exchange [0x70, 0]]"
  using C4_FlashWrite_bus_sequence
    [of "driver_state XQSPIPS_CONNECTION_MODE_SINGLE 0x20 15
           [(XST_SUCCESS, [0, 0]), (XST_SUCCESS, [0, 1]), (XST_SUCCESS, [0, 0]),
            (XST_SUCCESS, [0, 0x80])]"
        2 "[(XST_SUCCESS, [0, 1]), (XST_SUCCESS, [0, 0]), (XST_SUCCESS, [0, 0x80])]"
        "0x1234567" WRITE_CMD 0]
  by (simp add: driver_state_def multi_die_micron_def cfg_def Flash_Config_Table_def row_def
      flash_defs busy_def rx_bytes_def polls_needed_def bank_select_frames_def real_addr_def
      addr3_def flag_read_def load2)

text \<open>
  C4 as stated fails for a manufacturer other than Micron and Spansion: the Macronix
  256 Mb part has 32 MB, and a program at \<open>0x1234567\<close>, in bank 1, puts no bank select
  on the bus.
\<close>

theorem C4_macronix_no_bank_select_counterexample:
  "SIXTEENMB < FlashDeviceSize
     (cfg (driver_state XQSPIPS_CONNECTION_MODE_SINGLE 0xC2 24 [(XST_SUCCESS, [0, 0])])) \<and>
   real_addr (driver_state XQSPIPS_CONNECTION_MODE_SINGLE 0xC2 24 [(XST_SUCCESS, [0, 0])])
     0x1234567 div SIXTEENMB = 1 \<and>
   map_option bus
     (returned (FlashWrite
        (driver_state XQSPIPS_CONNECTION_MODE_SINGLE 0xC2 24 [(XST_SUCCESS, [0, 0])])
        0x1234567 2 WRITE_CMD 0)) =
     Some [Send [0x06], Send [0x02, 0x23, 0x45, 0x67, 0, 0], Exchange [0x05, 0]]"
proof -
  have l6: "load m p 6 = [m p, m (p + 1), m (p + 2), m (p + 3), m (p + 4), m (p + 5)]"
    for m :: "nat \<Rightarrow> u8" and p
    by (simp add: load_def upt_rec numeral_eq_Suc)
  show ?thesis
    by (simp add: FlashWrite_def GetRealAddr_def SendBankSelect_eq bank_select_frames_def
        bank_select_mem_def driver_state_def cfg_def Flash_Config_Table_def row_def Let_def
        transfer_tx_def poll_status_eq multi_die_micron_def busy_def rx_bytes_def
        polls_needed_def returned_def real_addr_def l6 flash_defs)
qed

subsection \<open>Erasing a whole chip\<close>

lemma poll_flag_status_eq:
  "poll_flag_status s =
     (if list_all flag_pending (script s) then Inl Blocked
      else Inr (s\<lparr>bus := bus s @ replicate (flag_polls_needed (script s))
                                     (Exchange [READ_FLAG_STATUS_CMD, 0]),
                  script := drop (flag_polls_needed (script s)) (script s)\<rparr>))"
proof (induction "script s" arbitrary: s)
  case Nil
  then show ?case
    by (subst poll_flag_status.simps) (simp add: transfer_rx_Nil)
next
  case (Cons r rs)
  let ?s1 = "s\<lparr>bus := bus s @ [Exchange [READ_FLAG_STATUS_CMD, 0]], script := rs\<rparr>"
  have sc: "script s = r # rs" using Cons.hyps(2) by simp
  have ih: "poll_flag_status ?s1 =
     (if list_all flag_pending rs then Inl Blocked
      else Inr (?s1\<lparr>bus := bus ?s1 @ replicate (flag_polls_needed rs)
                                        (Exchange [READ_FLAG_STATUS_CMD, 0]),
                  script := drop (flag_polls_needed rs) rs\<rparr>))"
    using Cons.hyps(1) [of ?s1] by simp
  show ?case
  proof (cases "flag_pending r")
    case True
    then have "poll_flag_status s = poll_flag_status ?s1"
      by (subst poll_flag_status.simps) (simp add: transfer_rx_2 [OF sc] flag_pending_def)
    with True ih sc show ?thesis
      by (simp add: flag_polls_needed_def replicate_app_Cons_same)
  next
    case False
    then have "poll_flag_status s = Inr ?s1"
      by (subst poll_flag_status.simps) (simp add: transfer_rx_2 [OF sc] flag_pending_def)
    with False sc show ?thesis
      by (simp add: flag_polls_needed_def)
  qed
qed

lemma regs_upd [simp]:
  "regs (s\<lparr>mem := m\<rparr>) = regs s" "regs (s\<lparr>bus := b\<rparr>) = regs s"
  "regs (s\<lparr>script := sc\<rparr>) = regs s" "regs (s\<lparr>cs_asserts := c\<rparr>) = regs s"
  "regs (SendBankSelect s W k) = regs s"
  by (simp_all add: regs_def)

lemma BulkErase_regs: "BulkErase s W = Inr s' \<Longrightarrow> regs s' = regs s"
  by (auto simp: BulkErase_def Let_def transfer_tx_def poll_status_eq split: if_splits)

lemma DieErase_loop_regs: "DieErase_loop s W d = Inr s' \<Longrightarrow> regs s' = regs s"
proof (induction s W d rule: DieErase_loop.induct)
  case (1 s W d)
  show ?case
  proof (cases "d < NumDie (cfg s)")
    case False
    with "1.prems" show ?thesis by (subst (asm) DieErase_loop.simps) simp
  next
    case True
    let ?s1 = "SendBankSelect s W (ucast d * 2)"
    let ?s2 = "transfer_tx ?s1 [WRITE_ENABLE_CMD]"
    let ?s3 = "?s2\<lparr>mem := (mem ?s2)
                    (W + COMMAND_OFFSET := DIE_ERASE_CMD,
                     W + ADDRESS_1_OFFSET := 0x00,
                     W + ADDRESS_2_OFFSET := 0x00,
                     W + ADDRESS_3_OFFSET := 0x00)\<rparr>"
    let ?s4 = "transfer_tx ?s3 (load (mem ?s3) W (unat DIE_ERASE_SIZE))"
    from "1.prems" True obtain s5 where p: "poll_flag_status ?s4 = Inr s5"
      and l: "DieErase_loop s5 W (d + 1) = Inr s'"
      by (subst (asm) DieErase_loop.simps) (simp add: Let_def split: sum.splits)
    from "1.IH" [OF True refl refl refl refl p l] have "regs s' = regs s5" .
    moreover from p have "regs s5 = regs s"
      by (auto simp: poll_flag_status_eq transfer_tx_def split: if_splits)
    ultimately show ?thesis by simp
  qed
qed

lemma erase_selected_chip_regs: "erase_selected_chip s W = Inr s' \<Longrightarrow> regs s' = regs s"
  by (auto simp: erase_selected_chip_def DieErase_def split: if_splits sum.splits
      dest!: BulkErase_regs DieErase_loop_regs)

subsection \<open>C9: the chip select after a full erase\<close>

text \<open>
  C9. When \<open>FlashErase\<close> is called in Stacked topology with a byte count equal to the
  capacity \<open>NumSect * SectSize\<close> of the active row and returns, the LQSPI configuration
  register is the one it found with the U_PAGE bits set: the upper chip stays selected,
  and the lower chip, selected at the start of the operation, is not selected again.
\<close>

theorem C9_full_erase_leaves_upper_page:
  assumes "ConnectionMode s = XQSPIPS_CONNECTION_MODE_STACKED"
    and "ByteCount = NumSect (cfg s) * SectSize (cfg s)"
    and "FlashErase s Address ByteCount W = Inr s'"
  shows "LqspiCr s' = LqspiCr s OR U_PAGE_MASK s \<and>
         LqspiCr s' AND U_PAGE_MASK s' = U_PAGE_MASK s'"
proof -
  let ?s1 = "XQspiPs_SetSlaveSelect (s\<lparr>LqspiCr := LqspiCr s AND NOT (U_PAGE_MASK s)\<rparr>)"
  from assms obtain s2 where e1: "erase_selected_chip ?s1 W = Inr s2"
    and e2': "(if ConnectionMode s2 = XQSPIPS_CONNECTION_MODE_STACKED
               then erase_selected_chip
                      (XQspiPs_SetSlaveSelect (s2\<lparr>LqspiCr := LqspiCr s2 OR U_PAGE_MASK s2\<rparr>)) W
               else Inr s2) = Inr s'"
    by (auto simp: FlashErase_def Let_def split: sum.splits)
  from erase_selected_chip_regs [OF e1] assms(1)
  have "ConnectionMode s2 = XQSPIPS_CONNECTION_MODE_STACKED"
    by (simp add: regs_def XQspiPs_SetSlaveSelect_def)
  with e2' have e2: "erase_selected_chip
               (XQspiPs_SetSlaveSelect (s2\<lparr>LqspiCr := LqspiCr s2 OR U_PAGE_MASK s2\<rparr>)) W = Inr s'"
    by simp
  from erase_selected_chip_regs [OF e1]
  have r2: "LqspiCr s2 = LqspiCr s AND NOT (U_PAGE_MASK s)" "U_PAGE_MASK s2 = U_PAGE_MASK s"
    by (simp_all add: regs_def XQspiPs_SetSlaveSelect_def)
  from erase_selected_chip_regs [OF e2]
  have r3: "LqspiCr s' = LqspiCr s2 OR U_PAGE_MASK s2" "U_PAGE_MASK s' = U_PAGE_MASK s2"
    by (simp_all add: regs_def XQspiPs_SetSlaveSelect_def)
  have "(LqspiCr s AND NOT (U_PAGE_MASK s)) OR U_PAGE_MASK s = LqspiCr s OR U_PAGE_MASK s"
    by (simp add: bit.disj_conj_distrib2)
  with r2 r3 show ?thesis
    by (simp add: bit.conj_disj_distrib2)
qed

theorem C9_full_erase_leaves_upper_page_witness:
  "map_option LqspiCr
     (returned (FlashErase
        (driver_state XQSPIPS_CONNECTION_MODE_STACKED 0x01 1
           [(XST_SUCCESS, [0, 0]), (XST_SUCCESS, [0, 0])]) 0 0x2000000 0)) = Some 0x10000000"
proof -
  let ?s0 = "driver_state XQSPIPS_CONNECTION_MODE_STACKED 0x01 1
               [(XST_SUCCESS, [0, 0]), (XST_SUCCESS, [0, 0])]"
  have "\<exists>s'. FlashErase ?s0 0 0x2000000 0 = Inr s'"
    by (simp add: FlashErase_def driver_state_def cfg_def Flash_Config_Table_def row_def
        Let_def XQspiPs_SetSlaveSelect_def erase_selected_chip_def BulkErase_def
        transfer_tx_def poll_status_eq busy_def rx_bytes_def polls_needed_def flash_defs)
  then obtain s' where e: "FlashErase ?s0 0 0x2000000 0 = Inr s'" by blast
  have m: "ConnectionMode ?s0 = XQSPIPS_CONNECTION_MODE_STACKED"
    by (simp add: driver_state_def)
  have f: "(0x2000000 :: u32) = NumSect (cfg ?s0) * SectSize (cfg ?s0)"
    by (simp add: driver_state_def cfg_def Flash_Config_Table_def row_def)
  from C9_full_erase_leaves_upper_page [OF m f e] e show ?thesis
    by (simp add: returned_def driver_state_def)
qed

subsection \<open>The sector loop of the erase and the chunks of the read\<close>

lemma FlashErase_sector_Inr:
  assumes "FlashErase_sector s A flag bank W = Inr (s', flag', bank')"
  shows "bus s' = bus s @
           (if SIXTEENMB < FlashDeviceSize (cfg s) \<and>
               (flag \<or> bank \<noteq> Some (real_addr s A div SIXTEENMB))
            then bank_select_frames s (real_addr s A div SIXTEENMB) else []) @
           [Send [WRITE_ENABLE_CMD], sector_frame (real_addr s A)] @ erase_polls s"
    and "ConnectionMode s' = ConnectionMode s" and "FCTIndex s' = FCTIndex s"
    and "FlashMake s' = FlashMake s" and "U_PAGE_MASK s' = U_PAGE_MASK s"
    and "flag' = (flag \<and> \<not> SIXTEENMB < FlashDeviceSize (cfg s))"
    and "bank' = (if SIXTEENMB < FlashDeviceSize (cfg s) \<and>
                     (flag \<or> bank \<noteq> Some (real_addr s A div SIXTEENMB))
                  then Some (real_addr s A div SIXTEENMB) else bank)"
    and "ConnectionMode s \<noteq> XQSPIPS_CONNECTION_MODE_OTHER"
  using assms
  unfolding FlashErase_sector_def GetRealAddr_eq
       apply (auto simp: Let_def transfer_tx_def poll_status_eq read_flag_status_eq
      load4 flash_defs erase_polls_def flag_read_def sector_frame_def
      split: if_splits list.splits sum.splits)
  done

lemma bank_changes_remdups_adj: "bank_changes None bs = remdups_adj bs"
proof -
  have "bank_changes (Some b) bs = tl (remdups_adj (b # bs))" for b bs
    by (induction bs arbitrary: b) auto
  then show ?thesis by (cases bs) auto
qed

lemma new_bus_append: "bus s' = bus s @ tr \<Longrightarrow> new_bus s s' = tr"
  by (simp add: new_bus_def)

lemma new_bus_self [simp]: "new_bus s s = []"
  by (simp add: new_bus_def)

lemma cfg_eq: "FCTIndex s' = FCTIndex s \<Longrightarrow> cfg s' = cfg s"
  by (simp add: cfg_def)

lemma real_addr_eq:
  "ConnectionMode s' = ConnectionMode s \<Longrightarrow> FCTIndex s' = FCTIndex s \<Longrightarrow>
   real_addr s' = real_addr s"
  using cfg_eq [of s' s] by (auto simp: real_addr_def fun_eq_iff split: connection_mode.splits)

lemma bank_select_frames_eq:
  "FlashMake s' = FlashMake s \<Longrightarrow> bank_select_frames s' = bank_select_frames s"
  by (rule ext) (simp add: bank_select_frames_def)

lemma sector_banks_Suc:
  "sector_banks s A (Suc k) =
     real_addr s A div SIXTEENMB # sector_banks s (A + SectSize (cfg s)) k"
proof -
  have "[0..<Suc k] = 0 # map Suc [0..<k]"
    by (simp add: upt_conv_Cons map_Suc_upt del: upt_Suc)
  then show ?thesis
    by (simp add: sector_banks_def comp_def algebra_simps)
qed

lemma filters_fixed [simp]:
  "filter is_sector_erase (bank_select_frames s b) = []"
  "filter is_sector_erase (erase_polls s) = []"
  "filter is_page_program (bank_select_frames s b) = []"
  "filter is_page_program (erase_polls s) = []"
  "filter is_bank_select (erase_polls s) = []"
  "is_sector_erase (sector_frame a)" "\<not> is_page_program (sector_frame a)"
  "\<not> is_bank_select (sector_frame a)"
  by (simp_all add: bank_select_frames_def erase_polls_def flag_read_def sector_frame_def
      flash_defs)

lemma word_Suc_diff:
  fixes i n :: u32
  assumes "i < n"
  shows "unat n - unat i = Suc (unat n - unat (i + 1))"
proof -
  from assms have "unat i < unat n" by (simp add: word_less_nat_alt)
  moreover have "unat n < 2 ^ 32" using unsigned_less [of n] by simp
  ultimately have "unat (i + 1) = unat i + 1"
    by (simp add: unat_word_ariths)
  with \<open>unat i < unat n\<close> show ?thesis by simp
qed

lemma FlashErase_loop_Inr:
  "FlashErase_loop s A i n flag bank W = Inr s' \<Longrightarrow>
     bus s' = bus s @ new_bus s s' \<and>
     ConnectionMode s' = ConnectionMode s \<and> FCTIndex s' = FCTIndex s \<and>
     FlashMake s' = FlashMake s \<and> U_PAGE_MASK s' = U_PAGE_MASK s \<and>
     length (filter is_sector_erase (new_bus s s')) = unat n - unat i \<and>
     filter is_page_program (new_bus s s') = [] \<and>
     (SIXTEENMB < FlashDeviceSize (cfg s) \<longrightarrow> (flag \<longrightarrow> bank = None) \<longrightarrow>
        filter is_bank_select (new_bus s s') =
          concat (map (bank_writes s)
                    (bank_changes bank (sector_banks s A (unat n - unat i)))))"
proof (induction s A i n flag bank W rule: FlashErase_loop.induct)
  case (1 s A i n flag bank W)
  show ?case
  proof (cases "i < n")
    case False
    then have "unat n - unat i = 0" by (simp add: word_less_nat_alt)
    moreover from "1.prems" False have "s' = s"
      by (subst (asm) FlashErase_loop.simps) simp
    ultimately show ?thesis by (simp add: sector_banks_def)
  next
    case True
    from "1.prems" True obtain s1 f1 b1
      where sec: "FlashErase_sector s A flag bank W = Inr (s1, f1, b1)"
        and rest: "FlashErase_loop s1 (A + SectSize (cfg s1)) (i + 1) n f1 b1 W = Inr s'"
      by (subst (asm) FlashErase_loop.simps) (auto split: sum.splits)
    note st = FlashErase_sector_Inr [OF sec]
    note ih = "1.IH" [OF True sec refl refl rest]
    have c: "cfg s1 = cfg s" using st(3) by (rule cfg_eq)
    have ra: "real_addr s1 = real_addr s" using st(2,3) by (rule real_addr_eq)
    have bf: "bank_select_frames s1 = bank_select_frames s" using st(4) by (rule bank_select_frames_eq)
    have bw: "bank_writes s1 = bank_writes s"
      by (rule ext) (simp add: bank_writes_def bf)
    have sb: "sector_banks s1 = sector_banks s"
      by (intro ext) (simp add: sector_banks_def ra c)
    let ?b = "real_addr s A div SIXTEENMB"
    let ?sel = "SIXTEENMB < FlashDeviceSize (cfg s) \<and> (flag \<or> bank \<noteq> Some ?b)"
    let ?step = "(if ?sel then bank_select_frames s ?b else []) @
           [Send [WRITE_ENABLE_CMD], sector_frame (real_addr s A)] @ erase_polls s"
    from ih have b1: "bus s' = bus s1 @ new_bus s1 s'" by blast
    have "bus s' = bus s @ (?step @ new_bus s1 s')"
      by (subst b1, subst st(1)) simp
    then have nb: "new_bus s s' = ?step @ new_bus s1 s'"
      by (rule new_bus_append)
    have n: "unat n - unat i = Suc (unat n - unat (i + 1))" using True by (rule word_Suc_diff)
    have bus: "bus s' = bus s @ new_bus s s'"
      unfolding nb by (subst b1, subst st(1)) simp
    have cnt: "length (filter is_sector_erase (new_bus s s')) = unat n - unat i"
      using ih by (simp add: nb n flash_defs)
    have prog: "filter is_page_program (new_bus s s') = []"
      using ih by (simp add: nb flash_defs)
    have banks: "filter is_bank_select (new_bus s s') =
          concat (map (bank_writes s)
                    (bank_changes bank (sector_banks s A (unat n - unat i))))"
      if big: "SIXTEENMB < FlashDeviceSize (cfg s)" and inv: "flag \<longrightarrow> bank = None"
    proof -
      from big st(6) have f1: "\<not> f1" by simp
      from big inv st(7) have b1: "b1 = Some ?b" by auto
      from big inv have sel: "?sel \<longleftrightarrow> bank \<noteq> Some ?b" by auto
      from ih big f1 have "filter is_bank_select (new_bus s1 s') =
          concat (map (bank_writes s)
             (bank_changes (Some ?b) (sector_banks s (A + SectSize (cfg s)) (unat n - unat (i + 1)))))"
        by (simp add: c bw sb b1)
      then show ?thesis
        unfolding nb n sector_banks_Suc
        using big inv by (simp add: bank_writes_def)
    qed
    from bus cnt prog banks ih st show ?thesis by simp
  qed
qed

lemma table_sect_size:
  "r \<in> set Flash_Config_Table \<Longrightarrow> 0x2000 \<le> unat (SectSize r)"
  by (auto simp: Flash_Config_Table_def row_def)

lemma table_sect_mask:
  "r \<in> set Flash_Config_Table \<Longrightarrow> SectSize r = 0x10000 \<Longrightarrow> SectMask r = 0xFFFF0000"
  by (auto simp: Flash_Config_Table_def row_def)

lemma all_ready_drop: "all_ready sc \<Longrightarrow> all_ready (drop k sc)"
  unfolding all_ready_def list_all_iff by (auto dest: in_set_dropD)

lemma FlashErase_sector_total:
  assumes "ConnectionMode s \<noteq> XQSPIPS_CONNECTION_MODE_OTHER"
    and "all_ready (script s)" and "3 \<le> length (script s)"
  shows "\<exists>s' f b k. FlashErase_sector s A flag bank W = Inr (s', f, b) \<and>
           script s' = drop k (script s) \<and> k \<le> 3"
proof -
  from assms(3) obtain r1 r2 r3 rest where sc: "script s = r1 # r2 # r3 # rest"
    by (cases "script s"; cases "tl (script s)"; cases "tl (tl (script s))") auto
  from assms(2) sc have r: "\<not> busy r1" "\<not> busy r2" "\<not> busy r3"
    by (simp_all add: all_ready_def)
  show ?thesis
  proof (cases "multi_die_micron s")
    case False
    with assms(1) sc r have "\<exists>s' f b. FlashErase_sector s A flag bank W = Inr (s', f, b) \<and>
           script s' = drop 1 (script s)"
      unfolding FlashErase_sector_def GetRealAddr_eq
      by (auto simp: Let_def transfer_tx_def poll_status_eq polls_needed_def
          split: prod.splits)
    then obtain s' f b where "FlashErase_sector s A flag bank W = Inr (s', f, b) \<and>
           script s' = drop 1 (script s) \<and> (1::nat) \<le> 3"
      by auto
    then show ?thesis by blast
  next
    case True
    with assms(1) sc r have "\<exists>s' f b. FlashErase_sector s A flag bank W = Inr (s', f, b) \<and>
           script s' = drop 3 (script s)"
      unfolding FlashErase_sector_def GetRealAddr_eq
      by (auto simp: Let_def transfer_tx_def poll_status_eq read_flag_status_eq
          polls_needed_def split: prod.splits)
    then obtain s' f b where "FlashErase_sector s A flag bank W = Inr (s', f, b) \<and>
           script s' = drop 3 (script s) \<and> (3::nat) \<le> 3"
      by auto
    then show ?thesis by blast
  qed
qed

lemma FlashErase_loop_total:
  "ConnectionMode s \<noteq> XQSPIPS_CONNECTION_MODE_OTHER \<Longrightarrow> all_ready (script s) \<Longrightarrow>
   3 * (unat n - unat i) \<le> length (script s) \<Longrightarrow>
   \<exists>s'. FlashErase_loop s A i n flag bank W = Inr s'"
proof (induction s A i n flag bank W rule: FlashErase_loop.induct)
  case (1 s A i n flag bank W)
  show ?case
  proof (cases "i < n")
    case False
    then show ?thesis by (subst FlashErase_loop.simps) simp
  next
    case True
    then have n: "unat n - unat i = Suc (unat n - unat (i + 1))" by (rule word_Suc_diff)
    with "1.prems"(3) have "3 \<le> length (script s)" by simp
    from FlashErase_sector_total [OF "1.prems"(1,2) this]
    obtain s1 f1 b1 k where sec: "FlashErase_sector s A flag bank W = Inr (s1, f1, b1)"
      and sc: "script s1 = drop k (script s)" and k: "k \<le> 3"
      by blast
    note st = FlashErase_sector_Inr [OF sec]
    have "\<exists>s'. FlashErase_loop s1 (A + SectSize (cfg s1)) (i + 1) n f1 b1 W = Inr s'"
    proof (rule "1.IH" [OF True sec refl refl])
      show "ConnectionMode s1 \<noteq> XQSPIPS_CONNECTION_MODE_OTHER"
        using st(2) "1.prems"(1) by simp
      show "all_ready (script s1)"
        unfolding sc using "1.prems"(2) by (rule all_ready_drop)
      show "3 * (unat n - unat (i + 1)) \<le> length (script s1)"
        using "1.prems"(3) k n by (simp add: sc)
    qed
    with True sec show ?thesis
      by (subst FlashErase_loop.simps) simp
  qed
qed

lemma word_div_small:
  fixes b :: u32
  assumes "0x2000 \<le> unat S"
  shows "unat (b div S) = unat b div unat S" and "unat b div unat S < 2 ^ 19"
proof -
  show "unat (b div S) = unat b div unat S" by (simp add: unat_div)
  have "unat b < 2 ^ 32" using unsigned_less [of b] by simp
  then have "unat b div unat S \<le> unat b div 0x2000"
    using assms by (simp add: div_le_mono2)
  also have "\<dots> < 2 ^ 19" using \<open>unat b < 2 ^ 32\<close> by simp
  finally show "unat b div unat S < 2 ^ 19" .
qed

lemma sectors_to_erase_unat:
  assumes "unat (FCTIndex s) < 33"
  shows "unat (sectors_to_erase s A b) =
     unat b div unat (SectSize (cfg s)) + 1 + (if boundary_overlap s A b then 1 else 0)"
proof -
  have S: "0x2000 \<le> unat (SectSize (cfg s))"
    using table_sect_size [OF cfg_in_table [OF assms]] .
  note d = word_div_small [OF S, of b]
  show ?thesis
    using d by (simp add: sectors_to_erase_def unat_word_ariths)
qed

lemma FlashErase_partial:
  "ByteCount \<noteq> NumSect (cfg s) * SectSize (cfg s) \<Longrightarrow>
   FlashErase s Address ByteCount W =
     FlashErase_loop s Address 0 (sectors_to_erase s Address ByteCount) True None W"
  by (simp add: FlashErase_def sectors_to_erase_def boundary_overlap_def Let_def)

lemma cfg_driver_state:
  "cfg (driver_state m k 0 sc) = row 0x10000 0x100 256 0x10000 0x1000000 SPANSION_ID_BYTE0 SPANSION_ID_BYTE2_128 0xFFFF0000 1"
  by (simp add: cfg_def driver_state_def Flash_Config_Table_def)

lemma FlashRead_chunk_Inr:
  assumes "FlashRead_chunk s A BC cmd W R T = Inr (s', A', BC')"
  shows "\<exists>fr. bus s' = bus s @
           (if SIXTEENMB < FlashDeviceSize (cfg s)
            then bank_select_frames s (real_addr s A div SIXTEENMB) else []) @
           [Exchange fr] \<and>
           length fr = unat (chunk_payload A BC + dummy_bytes cmd + OVERHEAD_SIZE)"
    and "ConnectionMode s' = ConnectionMode s" and "FCTIndex s' = FCTIndex s"
    and "FlashMake s' = FlashMake s" and "U_PAGE_MASK s' = U_PAGE_MASK s"
    and "A' = (A AND BANKMASK) + SIXTEENMB"
    and "BC' = BC - chunk_payload A BC"
    and "ConnectionMode s \<noteq> XQSPIPS_CONNECTION_MODE_OTHER"
    and "script s' = tl (script s)"
  using assms
  unfolding FlashRead_chunk_def GetRealAddr_eq
  by (auto simp: Let_def transfer_rx_def chunk_payload_def dummy_bytes_def
      split: if_splits list.splits sum.splits)

subsection \<open>C2: the number of sectors erased\<close>

text \<open>
  C2, as amended. For every erase of less than the whole capacity, with \<open>FCTIndex\<close> a
  row of the table, a call of \<open>FlashErase\<close> that returns has issued
  \<open>ByteCount / SectSize + 1\<close> sector erases (the quotient rounded down), and one more
  exactly when the boundary-overlap condition of the source holds. The call does return
  in the three topologies when the device answers every status read as ready, three
  answers for each sector sufficing. With a sector size of \<open>0x10000\<close>, address 0 and
  byte count \<open>0x10001\<close> exactly 2 sectors are erased.
\<close>

theorem C2_sector_count:
  assumes idx: "unat (FCTIndex s) < 33"
    and part: "ByteCount \<noteq> NumSect (cfg s) * SectSize (cfg s)"
  shows "(\<forall>s'. FlashErase s Address ByteCount W = Inr s' \<longrightarrow>
            length (filter is_sector_erase (new_bus s s')) =
              unat ByteCount div unat (SectSize (cfg s)) + 1 +
              (if boundary_overlap s Address ByteCount then 1 else 0)) \<and>
         (ConnectionMode s \<noteq> XQSPIPS_CONNECTION_MODE_OTHER \<and> all_ready (script s) \<and>
          3 * unat (sectors_to_erase s Address ByteCount) \<le> length (script s) \<longrightarrow>
            (\<exists>s'. FlashErase s Address ByteCount W = Inr s')) \<and>
         (SectSize (cfg s) = 0x10000 \<and> Address = 0 \<and> ByteCount = 0x10001 \<longrightarrow>
            (\<forall>s'. FlashErase s Address ByteCount W = Inr s' \<longrightarrow>
               length (filter is_sector_erase (new_bus s s')) = 2))"
proof -
  have count: "length (filter is_sector_erase (new_bus s s')) =
              unat ByteCount div unat (SectSize (cfg s)) + 1 +
              (if boundary_overlap s Address ByteCount then 1 else 0)"
    if "FlashErase s Address ByteCount W = Inr s'" for s'
    using FlashErase_loop_Inr [OF that [unfolded FlashErase_partial [OF part]]]
    by (simp add: sectors_to_erase_unat [OF idx])
  have total: "\<exists>s'. FlashErase s Address ByteCount W = Inr s'"
    if "ConnectionMode s \<noteq> XQSPIPS_CONNECTION_MODE_OTHER" "all_ready (script s)"
      "3 * unat (sectors_to_erase s Address ByteCount) \<le> length (script s)"
    unfolding FlashErase_partial [OF part]
    using that by (intro FlashErase_loop_total) simp_all
  have two: "length (filter is_sector_erase (new_bus s s')) = 2"
    if "SectSize (cfg s) = 0x10000" "Address = 0" "ByteCount = 0x10001"
      "FlashErase s Address ByteCount W = Inr s'" for s'
  proof -
    from that(1) have "SectMask (cfg s) = 0xFFFF0000"
      using table_sect_mask [OF cfg_in_table [OF idx]] by simp
    with that(1-3) have "\<not> boundary_overlap s Address ByteCount"
      by (simp add: boundary_overlap_def)
    with count [OF that(4)] that(1-3) show ?thesis by simp
  qed
  from count total two show ?thesis by blast
qed

theorem C2_sector_count_witness:
  "\<exists>s'. FlashErase (driver_state XQSPIPS_CONNECTION_MODE_SINGLE 0x01 0
                       (replicate 6 (XST_SUCCESS, [0, 0]))) 0 0x10001 0 = Inr s' \<and>
         length (filter is_sector_erase
                   (new_bus (driver_state XQSPIPS_CONNECTION_MODE_SINGLE 0x01 0
                               (replicate 6 (XST_SUCCESS, [0, 0]))) s')) = 2"
proof -
  let ?s = "driver_state XQSPIPS_CONNECTION_MODE_SINGLE 0x01 0
              (replicate 6 (XST_SUCCESS, [0, 0]))"
  have c: "cfg ?s = row 0x10000 0x100 256 0x10000 0x1000000 SPANSION_ID_BYTE0
                      SPANSION_ID_BYTE2_128 0xFFFF0000 1"
    by (rule cfg_driver_state)
  have i: "unat (FCTIndex ?s) < 33" by (simp add: driver_state_def)
  have p: "(0x10001 :: u32) \<noteq> NumSect (cfg ?s) * SectSize (cfg ?s)"
    by (simp add: c row_def)
  have n: "sectors_to_erase ?s 0 0x10001 = 2"
    by (simp add: sectors_to_erase_def boundary_overlap_def c row_def)
  have r: "ConnectionMode ?s \<noteq> XQSPIPS_CONNECTION_MODE_OTHER \<and> all_ready (script ?s) \<and>
      3 * unat (sectors_to_erase ?s 0 0x10001) \<le> length (script ?s)"
    by (simp add: n) (simp add: driver_state_def all_ready_def busy_def rx_bytes_def list_all_iff)
  have s: "SectSize (cfg ?s) = 0x10000 \<and> (0 :: u32) = 0 \<and> (0x10001 :: u32) = 0x10001"
    by (simp add: c row_def)
  from C2_sector_count [OF i p, of 0 0] r s show ?thesis by blast
qed

text \<open>
  C2 as stated fails where the byte count is a multiple of the sector size: an erase of
  \<open>0x10000\<close> bytes at address 0 with \<open>0x10000\<close>-byte sectors issues 2 sector erases,
  while the rounded-up quotient is 1 and the boundary-overlap condition does not hold.
\<close>

theorem C2_ceiling_counterexample:
  "map_option (length \<circ> filter is_sector_erase \<circ> bus)
     (returned (FlashErase (driver_state XQSPIPS_CONNECTION_MODE_SINGLE 0x01 0
                              [(XST_SUCCESS, [0, 0]), (XST_SUCCESS, [0, 0])]) 0 0x10000 0))
     = Some 2 \<and>
   \<not> boundary_overlap (driver_state XQSPIPS_CONNECTION_MODE_SINGLE 0x01 0
                          [(XST_SUCCESS, [0, 0]), (XST_SUCCESS, [0, 0])]) 0 0x10000 \<and>
   ceil_div 0x10000 0x10000 = 1"
proof -
  let ?s = "driver_state XQSPIPS_CONNECTION_MODE_SINGLE 0x01 0
              [(XST_SUCCESS, [0, 0]), (XST_SUCCESS, [0, 0])]"
  have c: "cfg ?s = row 0x10000 0x100 256 0x10000 0x1000000 SPANSION_ID_BYTE0
                      SPANSION_ID_BYTE2_128 0xFFFF0000 1"
    by (rule cfg_driver_state)
  have b: "\<not> boundary_overlap ?s 0 0x10000"
    by (simp add: boundary_overlap_def c row_def)
  have e: "FlashErase ?s 0 0x10000 0 = FlashErase_loop ?s 0 0 2 True None 0"
    by (simp add: FlashErase_def c row_def Let_def)
  have "map_option (length \<circ> filter is_sector_erase \<circ> bus)
          (returned (FlashErase_loop ?s 0 0 2 True None 0)) = Some 2"
    by (simp add: FlashErase_loop.simps FlashErase_sector_def GetRealAddr_def
        driver_state_def cfg_def Flash_Config_Table_def row_def Let_def transfer_tx_def
        poll_status_eq multi_die_micron_def busy_def rx_bytes_def polls_needed_def
        returned_def load4 flash_defs)
  with b e show ?thesis by (simp add: ceil_div_def)
qed

subsection \<open>The chunks of a read\<close>

lemma bankmask_bits: "(A :: u32) AND 0xF000000 = push_bit 24 (take_bit 4 (drop_bit 24 A))"
proof -
  have m: "(0xF000000 :: u32) = push_bit 24 (mask 4)"
    by (simp add: mask_eq_exp_minus_1)
  show ?thesis
    unfolding m
    by (rule bit_word_eqI) (auto simp: bit_simps)
qed

lemma unat_bankmask_mod:
  fixes A :: u32
  shows "unat (A AND 0xF000000) = unat A div 2 ^ 24 mod 16 * 2 ^ 24"
proof -
  let ?x = "A div 16777216 mod 16"
  have x: "unat ?x = unat A div 16777216 mod 16"
    by (simp add: unat_div unat_mod)
  have "unat ?x * unat (16777216 :: u32) < 2 ^ LENGTH(32)"
    unfolding x by simp
  then have "unat (?x * 16777216) = unat ?x * unat (16777216 :: u32)"
    by (simp only: unat_mult_lem)
  moreover have "A AND 0xF000000 = ?x * 16777216"
    by (simp add: bankmask_bits take_bit_eq_mod push_bit_eq_mult drop_bit_eq_div)
  ultimately show ?thesis
    by (simp add: x)
qed

lemma chunk_size_bounds:
  fixes a n :: nat
  assumes "0 < n"
  defines "k \<equiv> (if a div 2 ^ 24 \<noteq> (a + n) div 2 ^ 24
                 then a div 2 ^ 24 * 2 ^ 24 + 2 ^ 24 - a else n)"
  shows "0 < k" and "k \<le> n" and "k \<le> 2 ^ 24"
    and "a div 2 ^ 24 = (a + k - 1) div 2 ^ 24"
proof -
  let ?M = "2 ^ 24 :: nat"
  have m: "a mod ?M < ?M" by simp
  have a: "a = a div ?M * ?M + a mod ?M" by simp
  show "0 < k" using assms m a by (auto simp: k_def)
  have cross: "a div ?M * ?M + ?M \<le> a + n" if "a div ?M \<noteq> (a + n) div ?M"
  proof (rule ccontr)
    assume "\<not> a div ?M * ?M + ?M \<le> a + n"
    then have "a + n < (a div ?M + 1) * ?M" by simp
    then have "(a + n) div ?M < a div ?M + 1"
      by (simp add: less_mult_imp_div_less)
    moreover have "a div ?M \<le> (a + n) div ?M" by (simp add: div_le_mono)
    ultimately show False using that by simp
  qed
  show "k \<le> n" using cross by (auto simp: k_def)
  have same: "n \<le> ?M" if "a div ?M = (a + n) div ?M"
  proof (rule ccontr)
    assume "\<not> n \<le> ?M"
    then have "a + ?M \<le> a + n" by simp
    then have "(a + ?M) div ?M \<le> (a + n) div ?M" by (rule div_le_mono)
    with that show False by simp
  qed
  show "k \<le> ?M" using same a by (auto simp: k_def)
  show "a div ?M = (a + k - 1) div ?M"
  proof (cases "a div ?M \<noteq> (a + n) div ?M")
    case True
    then have "a + k - 1 = a div ?M * ?M + (?M - 1)"
      using a m by (simp add: k_def)
    then show ?thesis by simp
  next
    case False
    then have k: "k = n" by (simp add: k_def)
    have "a div ?M \<le> (a + n - 1) div ?M" by (rule div_le_mono) (use assms in simp)
    moreover have "(a + n - 1) div ?M \<le> (a + n) div ?M" by (rule div_le_mono) simp
    ultimately show ?thesis using False k by simp
  qed
qed

lemma sint_small:
  fixes b :: u32
  assumes "unat b < 2 ^ 31"
  shows "sint b = int (unat b)"
proof -
  have u: "uint b = int (unat b)" by (rule uint_nat)
  have lo: "- (2 ^ 31) \<le> uint b" by (rule order_trans [OF _ uint_ge_0]) simp
  have hi: "uint b < 2 ^ 31"
    unfolding u by (simp only: of_nat_less_numeral_power_cancel_iff assms)
  have "sint b = signed_take_bit 31 (uint b)"
    by (simp add: sint_uint)
  also have "\<dots> = uint b"
    using lo hi by (rule signed_take_bit_int_eq_self)
  finally show ?thesis by (simp only: u)
qed

lemma chunk_words:
  fixes A BC :: u32
  assumes r: "within_banks A BC" and p: "BC \<noteq> 0"
  shows "unat (chunk_payload A BC) =
           (if unat A div 2 ^ 24 \<noteq> (unat A + unat BC) div 2 ^ 24
            then unat A div 2 ^ 24 * 2 ^ 24 + 2 ^ 24 - unat A else unat BC)"
    and "unat A div 2 ^ 24 \<noteq> (unat A + unat BC) div 2 ^ 24 \<Longrightarrow>
         unat ((A AND BANKMASK) + SIXTEENMB) = unat A div 2 ^ 24 * 2 ^ 24 + 2 ^ 24"
    and "unat (BC - chunk_payload A BC) = unat BC - unat (chunk_payload A BC)"
    and "0 < sint BC"
    and "unat A div 2 ^ 24 \<noteq> (unat A + unat BC) div 2 ^ 24 \<Longrightarrow>
         unat A < 2 ^ 28 \<and> unat A + unat BC < 2 ^ 28 + 2 ^ 24 \<and>
         (unat A < 2 ^ 24 \<longrightarrow> unat A + unat BC < 2 ^ 28)"
proof -
  let ?M = "2 ^ 24 :: nat"
  let ?a = "unat A" and ?n = "unat BC"
  from p have n: "0 < ?n" by (simp add: unat_gt_0)
  from r have fam: "(?a div ?M = (?a + ?n) div ?M \<and> ?a + ?n < 2 ^ 32) \<or>
      (?a < 2 ^ 28 \<and> ?a + ?n < 2 ^ 28 + ?M \<and> (?a < ?M \<longrightarrow> ?a + ?n < 2 ^ 28))"
    by (simp add: within_banks_def Let_def)
  then have lt32: "?a + ?n < 2 ^ 32" by auto
  have sum: "unat (A + BC) = ?a + ?n"
    using lt32 by (simp add: unat_word_ariths)
  have bA: "unat (A AND BANKMASK) = ?a div ?M mod 16 * ?M"
    unfolding BANKMASK_def by (simp add: unat_bankmask_mod)
  have bS: "unat ((A + BC) AND BANKMASK) = (?a + ?n) div ?M mod 16 * ?M"
    unfolding BANKMASK_def by (simp add: unat_bankmask_mod sum)
  show cross: "?a < 2 ^ 28 \<and> ?a + ?n < 2 ^ 28 + ?M \<and> (?a < ?M \<longrightarrow> ?a + ?n < 2 ^ 28)"
    if "?a div ?M \<noteq> (?a + ?n) div ?M"
    using fam that by auto
  have wrap16: "?a div ?M mod 16 \<noteq> (?a + ?n) div ?M mod 16 \<longleftrightarrow>
                ?a div ?M \<noteq> (?a + ?n) div ?M"
  proof (cases "?a div ?M = (?a + ?n) div ?M")
    case True
    then show ?thesis by simp
  next
    case False
    note c = cross [OF False]
    from c have "?a < 16 * ?M" by simp
    then have bank: "?a div ?M < 16" by (rule less_mult_imp_div_less)
    show ?thesis
    proof (cases "?a + ?n < 2 ^ 28")
      case True
      then have "(?a + ?n) div ?M < 16" by (simp add: less_mult_imp_div_less)
      with bank show ?thesis by simp
    next
      case g: False
      with c have ge: "?M \<le> ?a" by auto
      then have "1 \<le> ?a div ?M" by (simp add: div_greater_zero_iff Suc_le_eq)
      moreover have "(?a + ?n) div ?M = 16"
      proof -
        have "16 * ?M \<le> ?a + ?n" using g by simp
        then have "16 \<le> (?a + ?n) div ?M" by (simp add: less_eq_div_iff_mult_less_eq)
        moreover from c have "?a + ?n < 17 * ?M" by simp
        then have "(?a + ?n) div ?M < 17" by (simp add: less_mult_imp_div_less)
        ultimately show ?thesis by simp
      qed
      ultimately show ?thesis using bank by simp
    qed
  qed
  have cond: "A AND BANKMASK \<noteq> (A + BC) AND BANKMASK \<longleftrightarrow> ?a div ?M \<noteq> (?a + ?n) div ?M"
  proof -
    have "A AND BANKMASK = (A + BC) AND BANKMASK \<longleftrightarrow>
          unat (A AND BANKMASK) = unat ((A + BC) AND BANKMASK)"
      by (simp add: word_unat_eq_iff)
    also have "\<dots> \<longleftrightarrow> ?a div ?M mod 16 = (?a + ?n) div ?M mod 16"
      by (simp add: bA bS)
    finally show ?thesis using wrap16 by simp
  qed
  show next_bank: "unat ((A AND BANKMASK) + SIXTEENMB) = ?a div ?M * ?M + ?M"
    if x: "?a div ?M \<noteq> (?a + ?n) div ?M"
  proof -
    note c = cross [OF x]
    from c have "?a < 16 * ?M" by simp
    then have bank: "?a div ?M < 16" by (rule less_mult_imp_div_less)
    have le: "?a div ?M * ?M \<le> ?a" by simp
    define x where "x = ?a div ?M * ?M"
    from c le have "x < 2 ^ 28" unfolding x_def by linarith
    then have "x + ?M < 2 ^ 32" by simp
    then have lt: "?a div ?M * ?M + ?M < 2 ^ 32" unfolding x_def .
    from bank have b: "unat (A AND BANKMASK) = ?a div ?M * ?M" by (simp add: bA)
    have "unat (A AND BANKMASK) + unat SIXTEENMB < 2 ^ LENGTH(32)"
      using lt by (simp add: b SIXTEENMB_def)
    then have "unat ((A AND BANKMASK) + SIXTEENMB) = unat (A AND BANKMASK) + unat SIXTEENMB"
      by (simp only: unat_add_lem)
    then show ?thesis by (simp add: b SIXTEENMB_def)
  qed
  have m: "?a mod ?M < ?M" by simp
  have a: "?a = ?a div ?M * ?M + ?a mod ?M" by simp
  have "unat ((A AND BANKMASK) + SIXTEENMB - A) = ?a div ?M * ?M + ?M - ?a"
    if x: "?a div ?M \<noteq> (?a + ?n) div ?M"
  proof -
    have "?a \<le> unat ((A AND BANKMASK) + SIXTEENMB)"
      unfolding next_bank [OF x] using a m by linarith
    then show ?thesis
      by (simp add: unat_sub word_le_nat_alt next_bank [OF x])
  qed
  then show pay: "unat (chunk_payload A BC) =
           (if ?a div ?M \<noteq> (?a + ?n) div ?M then ?a div ?M * ?M + ?M - ?a else ?n)"
    by (simp add: chunk_payload_def cond)
  have "unat (chunk_payload A BC) \<le> ?n"
    unfolding pay using chunk_size_bounds(2) [OF n, of ?a] .
  then show "unat (BC - chunk_payload A BC) = ?n - unat (chunk_payload A BC)"
    by (simp add: unat_sub word_le_nat_alt)
  have "?n < 2 ^ 31"
  proof (cases "?a div ?M = (?a + ?n) div ?M")
    case True
    then have "?n \<le> ?M"
    proof -
      have "\<not> ?M < ?n"
      proof
        assume "?M < ?n"
        then have "?a + ?M \<le> ?a + ?n" by simp
        then have "(?a + ?M) div ?M \<le> (?a + ?n) div ?M" by (rule div_le_mono)
        with True show False by simp
      qed
      then show ?thesis by simp
    qed
    then show ?thesis by simp
  next
    case False
    from cross [OF this] show ?thesis by simp
  qed
  then have "sint BC = int ?n" by (rule sint_small)
  with n show "0 < sint BC" by (simp only: of_nat_0_less_iff)
qed

lemma FlashRead_chunk_total:
  assumes "ConnectionMode s \<noteq> XQSPIPS_CONNECTION_MODE_OTHER" and "script s \<noteq> []"
  shows "\<exists>s1. FlashRead_chunk s A BC cmd W R T =
           Inr (s1, (A AND BANKMASK) + SIXTEENMB, BC - chunk_payload A BC)"
  using assms
  unfolding FlashRead_chunk_def GetRealAddr_eq
  by (cases "script s")
     (auto simp: Let_def transfer_rx_def chunk_payload_def dummy_bytes_def)

lemma bank_chunks_0 [simp]: "bank_chunks a 0 = []"
  by (subst bank_chunks.simps) simp

lemma bank_chunks_pos:
  "0 < n \<Longrightarrow> bank_chunks a n =
     (a, if a div 2 ^ 24 \<noteq> (a + n) div 2 ^ 24 then a div 2 ^ 24 * 2 ^ 24 + 2 ^ 24 - a else n) #
     bank_chunks (a div 2 ^ 24 * 2 ^ 24 + 2 ^ 24)
       (n - (if a div 2 ^ 24 \<noteq> (a + n) div 2 ^ 24
             then a div 2 ^ 24 * 2 ^ 24 + 2 ^ 24 - a else n))"
  by (subst bank_chunks.simps) (simp add: Let_def)

lemma take_load: "j \<le> n \<Longrightarrow> take j (load m p n) = load m p j"
  by (simp add: load_def take_map min_def)

lemma FlashRead_chunk_frame:
  assumes "FlashRead_chunk s A BC cmd W R T = Inr (s', A', BC')"
  shows "\<exists>fr. bus s' = bus s @
           (if SIXTEENMB < FlashDeviceSize (cfg s)
            then bank_select_frames s (real_addr s A div SIXTEENMB) else []) @
           [Exchange fr] \<and>
           length fr = unat (chunk_payload A BC + dummy_bytes cmd + OVERHEAD_SIZE) \<and>
           (4 \<le> unat (chunk_payload A BC + dummy_bytes cmd + OVERHEAD_SIZE) \<longrightarrow>
              take 4 fr = cmd # addr3 (real_addr s A))"
  using assms
  unfolding FlashRead_chunk_def GetRealAddr_eq
  by (auto simp: Let_def transfer_rx_def chunk_payload_def dummy_bytes_def take_load load4
      addr3_def COMMAND_OFFSET_def ADDRESS_1_OFFSET_def ADDRESS_2_OFFSET_def
      ADDRESS_3_OFFSET_def
      split: if_splits list.splits sum.splits)

lemma read_select_eq:
  "ConnectionMode s' = ConnectionMode s \<Longrightarrow> FCTIndex s' = FCTIndex s \<Longrightarrow>
   FlashMake s' = FlashMake s \<Longrightarrow> read_select s' = read_select s"
proof (rule ext)
  fix a
  assume m: "ConnectionMode s' = ConnectionMode s" and i: "FCTIndex s' = FCTIndex s"
    and k: "FlashMake s' = FlashMake s"
  have c: "cfg s' = cfg s" using i by (rule cfg_eq)
  have r: "real_addr s' = real_addr s" using m i by (rule real_addr_eq)
  show "read_select s' a = read_select s a"
    by (simp add: read_select_def c r k bank_select_frames_def)
qed

lemma FlashRead_loop_bus:
  assumes "ConnectionMode s \<noteq> XQSPIPS_CONNECTION_MODE_OTHER"
    and "within_banks A BC \<or> BC = 0"
    and "length (bank_chunks (unat A) (unat BC)) \<le> length (script s)"
  shows "\<exists>s' frs. FlashRead_loop s A BC cmd W R T = Inr s' \<and>
           bus s' = bus s @
             concat (map2 (\<lambda>(a, k) fr. read_select s a @ [Exchange fr])
                       (bank_chunks (unat A) (unat BC)) frs) \<and>
           list_all2 (\<lambda>(a, k) fr. take 4 fr = cmd # addr3 (real_addr s (of_nat a)) \<and>
                                   length fr = k + unat (dummy_bytes cmd) + 4)
             (bank_chunks (unat A) (unat BC)) frs"
  using assms
proof (induction "unat BC" arbitrary: s A BC rule: less_induct)
  case less
  show ?case
  proof (cases "BC = 0")
    case True
    then have "FlashRead_loop s A BC cmd W R T = Inr s"
      by (subst FlashRead_loop.simps) simp
    with True show ?thesis by simp
  next
    case False
    with less.prems(2) have r: "within_banks A BC" by simp
    note w = chunk_words [OF r False]
    let ?a = "unat A" and ?n = "unat BC"
    let ?k = "unat (chunk_payload A BC)"
    from False have n: "0 < ?n" by (simp add: unat_gt_0)
    note kb = chunk_size_bounds [OF n, of ?a, folded w(1)]
    let ?A' = "(A AND BANKMASK) + SIXTEENMB" and ?B' = "BC - chunk_payload A BC"
    note bp = bank_chunks_pos [OF n, of ?a, folded w(1)]
    have ch: "bank_chunks ?a ?n = (?a, ?k) # bank_chunks (unat ?A') (unat ?B')"
    proof (cases "?a div 2 ^ 24 \<noteq> (?a + ?n) div 2 ^ 24")
      case True
      show ?thesis
        unfolding bp by (simp add: w(3) w(2) [OF True])
    next
      case False
      then have kn: "?k = ?n" by (simp add: w(1))
      have "bank_chunks ?a ?n = [(?a, ?k)]"
        unfolding bp by (simp add: kn)
      moreover have "bank_chunks (unat ?A') (unat ?B') = []"
        by (simp add: w(3) kn)
      ultimately show ?thesis by simp
    qed
    with less.prems(3) have sc: "script s \<noteq> []" by auto
    from FlashRead_chunk_total [OF less.prems(1) sc]
    obtain s1 where c: "FlashRead_chunk s A BC cmd W R T = Inr (s1, ?A', ?B')"
      by blast
    note st = FlashRead_chunk_Inr [OF c]
    have d1: "unat (dummy_bytes cmd) \<le> 1"
      by (simp add: dummy_bytes_def DUMMY_SIZE_def)
    have tot: "unat (chunk_payload A BC + dummy_bytes cmd + OVERHEAD_SIZE) =
               ?k + unat (dummy_bytes cmd) + 4"
      using kb(3) d1 by (simp add: unat_word_ariths OVERHEAD_SIZE_def)
    from FlashRead_chunk_frame [OF c] obtain fr where
      b1: "bus s1 = bus s @ read_select s ?a @ [Exchange fr]"
      and fl: "length fr = ?k + unat (dummy_bytes cmd) + 4"
      and hd: "take 4 fr = cmd # addr3 (real_addr s A)"
      unfolding tot read_select_def by auto
    have rs: "read_select s1 = read_select s"
      using st(2,3,4) by (rule read_select_eq)
    have ra: "real_addr s1 = real_addr s" using st(2,3) by (rule real_addr_eq)
    have "\<exists>s' frs. FlashRead_loop s1 ?A' ?B' cmd W R T = Inr s' \<and>
           bus s' = bus s1 @
             concat (map2 (\<lambda>(a, k) fr. read_select s1 a @ [Exchange fr])
                       (bank_chunks (unat ?A') (unat ?B')) frs) \<and>
           list_all2 (\<lambda>(a, k) fr. take 4 fr = cmd # addr3 (real_addr s1 (of_nat a)) \<and>
                                   length fr = k + unat (dummy_bytes cmd) + 4)
             (bank_chunks (unat ?A') (unat ?B')) frs"
    proof (rule less.hyps)
      show "unat ?B' < unat BC" using w(3) kb(1) n by simp
      show "ConnectionMode s1 \<noteq> XQSPIPS_CONNECTION_MODE_OTHER"
        using st(2) less.prems(1) by simp
      show "within_banks ?A' ?B' \<or> ?B' = 0"
      proof (cases "?a div 2 ^ 24 \<noteq> (?a + ?n) div 2 ^ 24")
        case True
        note x = w(5) [OF True]
        let ?a' = "?a div 2 ^ 24 * 2 ^ 24 + 2 ^ 24"
        from True have k: "?k = ?a' - ?a" by (simp add: w(1))
        have le: "?a div 2 ^ 24 * 2 ^ 24 \<le> ?a" by simp
        have a': "unat ?A' = ?a'" by (rule w(2) [OF True])
        have n': "unat ?B' = ?a + ?n - ?a'"
          using k le kb(2) by (simp add: w(3))
        have e: "?a' + (?a + ?n - ?a') = ?a + ?n" using k kb(2) le by simp
        have ge: "(2 ^ 24 :: nat) \<le> ?a'" by simp
        have up: "?a' \<le> 2 ^ 28"
        proof -
          from x have "?a div 2 ^ 24 < 16" by (simp add: less_mult_imp_div_less)
          then have "?a div 2 ^ 24 + 1 \<le> 16" by simp
          then have "(?a div 2 ^ 24 + 1) * 2 ^ 24 \<le> 16 * (2 ^ 24 :: nat)"
            by (rule mult_le_mono1)
          then show ?thesis by simp
        qed
        show ?thesis
        proof (cases "?a' < 2 ^ 28")
          case True
          with x ge have "within_banks ?A' ?B'"
            unfolding within_banks_def Let_def a' n' e by simp
          then show ?thesis ..
        next
          case False
          with up have top: "?a' = 2 ^ 28" by simp
          from x have "?a + ?n < 17 * 2 ^ 24" by simp
          then have "(?a + ?n) div 2 ^ 24 < 17" by (simp add: less_mult_imp_div_less)
          moreover have "16 \<le> (?a + ?n) div 2 ^ 24"
          proof -
            have "?a' \<le> ?a + ?n" using e by linarith
            then have "16 * 2 ^ 24 \<le> ?a + ?n" using top by simp
            then show ?thesis by (simp add: less_eq_div_iff_mult_less_eq)
          qed
          ultimately have "(?a + ?n) div 2 ^ 24 = 16" by simp
          moreover have "?a' div 2 ^ 24 = 16" unfolding top by simp
          ultimately have "within_banks ?A' ?B'"
            unfolding within_banks_def Let_def a' n' e using x by simp
          then show ?thesis ..
        qed
      next
        case False
        then have "?k = ?n" by (simp add: w(1))
        then have "unat ?B' = 0" by (simp add: w(3))
        then show ?thesis by (simp add: unat_eq_0)
      qed
      show "length (bank_chunks (unat ?A') (unat ?B')) \<le> length (script s1)"
        using less.prems(3) sc by (simp add: ch st(9))
    qed
    then obtain s' frs where l: "FlashRead_loop s1 ?A' ?B' cmd W R T = Inr s'"
      and b2: "bus s' = bus s1 @
             concat (map2 (\<lambda>(a, k) fr. read_select s a @ [Exchange fr])
                       (bank_chunks (unat ?A') (unat ?B')) frs)"
      and m: "list_all2 (\<lambda>(a, k) fr. take 4 fr = cmd # addr3 (real_addr s (of_nat a)) \<and>
                                   length fr = k + unat (dummy_bytes cmd) + 4)
             (bank_chunks (unat ?A') (unat ?B')) frs"
      unfolding rs ra by blast
    have "FlashRead_loop s A BC cmd W R T = Inr s'"
      using w(4) c l by (subst FlashRead_loop.simps) simp
    moreover have "bus s' = bus s @
             concat (map2 (\<lambda>(a, k) fr. read_select s a @ [Exchange fr])
                       (bank_chunks ?a ?n) (fr # frs))"
      unfolding ch by (subst b2, subst b1) simp
    moreover have "list_all2 (\<lambda>(a, k) fr. take 4 fr = cmd # addr3 (real_addr s (of_nat a)) \<and>
                                   length fr = k + unat (dummy_bytes cmd) + 4)
             (bank_chunks ?a ?n) (fr # frs)"
      unfolding ch using m fl hd by simp
    ultimately show ?thesis by blast
  qed
qed

lemma filter_select_chunks:
  "list_all2 P cs frs \<Longrightarrow>
   filter is_bank_select (concat (map2 (\<lambda>(a, k) fr. read_select s a @ [Exchange fr]) cs frs)) =
     concat (map (\<lambda>(a, k). filter is_bank_select (read_select s a)) cs)"
  by (induction rule: list_all2_induct) auto

lemma bank_writes_eq:
  "bank_writes s b = (if selects_bank s then [bank_write s b] else [])"
  by (simp add: bank_writes_def bank_select_frames_def selects_bank_def bank_write_def flash_defs)

lemma concat_bank_writes:
  "concat (map (bank_writes s) bs) = (if selects_bank s then map (bank_write s) bs else [])"
  by (induction bs) (simp_all add: bank_writes_eq)

lemma select_of_read_select:
  "SIXTEENMB < FlashDeviceSize (cfg s) \<Longrightarrow>
   filter is_bank_select (read_select s a) =
     (if selects_bank s then [bank_write s (real_addr s (of_nat a) div SIXTEENMB)] else [])"
  by (simp add: read_select_def bank_writes_eq [symmetric] bank_writes_def)

text \<open>
  Outside these spans the mask fails: a read of the \<open>2^28\<close> bytes from address 0 is one
  transfer across all sixteen banks, as the end of the span has the masked bank 0 of its
  start.
\<close>

lemma FlashRead_bank0_to_top:
  assumes "ConnectionMode s \<noteq> XQSPIPS_CONNECTION_MODE_OTHER" and "script s \<noteq> []"
  shows "\<exists>s' fr. FlashRead s 0 0x10000000 READ_CMD W R = Inr s' \<and>
           new_bus s s' = read_select s 0 @ [Exchange fr] \<and>
           length fr = 2 ^ 28 + 4"
proof -
  have p: "chunk_payload 0 0x10000000 = 0x10000000"
    by (simp add: chunk_payload_def BANKMASK_def)
  have d: "dummy_bytes READ_CMD = 0"
    by (simp add: dummy_bytes_def dummy_read_def flash_defs)
  from FlashRead_chunk_total [OF assms, of 0 "0x10000000" READ_CMD W R "0x10000000"]
  obtain s1 where c: "FlashRead_chunk s 0 0x10000000 READ_CMD W R 0x10000000 =
      Inr (s1, (0 AND BANKMASK) + SIXTEENMB, 0)"
    unfolding p by auto
  from FlashRead_chunk_frame [OF c] obtain fr where
    b: "bus s1 = bus s @ read_select s 0 @ [Exchange fr]"
    and l: "length fr = 2 ^ 28 + 4"
    unfolding p d read_select_def by (auto simp: OVERHEAD_SIZE_def)
  have "FlashRead_loop s1 ((0 AND BANKMASK) + SIXTEENMB) 0 READ_CMD W R 0x10000000 = Inr s1"
    by (subst FlashRead_loop.simps) simp
  with c have "FlashRead s 0 0x10000000 READ_CMD W R = Inr s1"
    unfolding FlashRead_def by (subst FlashRead_loop.simps) simp
  with new_bus_append [OF b] l show ?thesis by blast
qed

lemma bank_chunks_sum: "sum_list (map snd (bank_chunks a n)) = n"
proof (induction a n rule: bank_chunks.induct)
  case (1 a n)
  show ?case
  proof (cases "n = 0")
    case True
    then show ?thesis by simp
  next
    case False
    then have n: "0 < n" by simp
    note kb = chunk_size_bounds [OF n, of a]
    from "1.IH" [OF False refl] kb(2) show ?thesis
      by (subst bank_chunks_pos [OF n]) simp
  qed
qed

lemma bank_chunks_within:
  "(a', k) \<in> set (bank_chunks a n) \<Longrightarrow> 0 < k \<and> a' div 2 ^ 24 = (a' + k - 1) div 2 ^ 24"
proof (induction a n rule: bank_chunks.induct)
  case (1 a n)
  show ?case
  proof (cases "n = 0")
    case True
    with "1.prems" show ?thesis by simp
  next
    case False
    then have n: "0 < n" by simp
    note kb = chunk_size_bounds [OF n, of a]
    from "1.prems" "1.IH" [OF False refl] kb(1,4) show ?thesis
      by (subst (asm) bank_chunks_pos [OF n]) auto
  qed
qed

lemma bank_chunks_hd: "0 < n \<Longrightarrow> bank_chunks a n \<noteq> [] \<and> fst (hd (bank_chunks a n)) = a"
  by (subst (1 2) bank_chunks_pos) simp_all

lemma bank_chunks_next:
  "Suc i < length (bank_chunks a n) \<Longrightarrow>
   fst (bank_chunks a n ! Suc i) = (fst (bank_chunks a n ! i) div 2 ^ 24 + 1) * 2 ^ 24"
proof (induction a n arbitrary: i rule: bank_chunks.induct)
  case (1 a n)
  show ?case
  proof (cases "n = 0")
    case True
    with "1.prems" show ?thesis by simp
  next
    case False
    then have n: "0 < n" by simp
    define k where "k = (if a div 2 ^ 24 \<noteq> (a + n) div 2 ^ 24
                         then a div 2 ^ 24 * 2 ^ 24 + 2 ^ 24 - a else n)"
    define a2 where "a2 = a div 2 ^ 24 * 2 ^ 24 + 2 ^ 24"
    define rest where "rest = bank_chunks a2 (n - k)"
    have ch: "bank_chunks a n = (a, k) # rest"
      unfolding rest_def a2_def k_def by (rule bank_chunks_pos [OF n])
    show ?thesis
    proof (cases i)
      case 0
      with "1.prems" ch have ne: "rest \<noteq> []" by auto
      then have "0 < n - k" unfolding rest_def by (cases "n - k = 0") simp_all
      from bank_chunks_hd [OF this, of a2] have "fst (hd rest) = a2"
        by (simp add: rest_def)
      with ne have "fst (rest ! 0) = a2" by (simp add: hd_conv_nth)
      with 0 show ?thesis by (simp add: ch a2_def)
    next
      case (Suc j)
      with "1.prems" ch have "Suc j < length rest" by simp
      from "1.IH" [OF False refl this [unfolded rest_def a2_def k_def]] Suc
      show ?thesis by (simp add: ch rest_def a2_def k_def)
    qed
  qed
qed

subsection \<open>C3: when a bank select is emitted\<close>

text \<open>
  C3, as amended. Take a device larger than 16 MB. When the manufacturer is Micron or
  Spansion, a sector erase (a byte count other than the capacity) that returns has
  emitted the bank-register write for the first sector and for every later sector whose
  bank differs from the bank of the sector before it, and no other: the writes are those
  of the banks of the sectors with adjacent repetitions removed, so two consecutive
  sectors in one bank give at most one. A read emits one bank-register write for every
  chunk, for the bank of that chunk, whether or not that bank was selected before. For
  any other manufacturer neither emits a bank-register write. The erase returns in the
  three topologies when the device answers every status read as ready, three answers for
  each sector sufficing; the read returns when its span is one that the bank mask tells
  apart and the device answers one transfer for each chunk.
\<close>

theorem C3_bank_select_emission:
  assumes big: "SIXTEENMB < FlashDeviceSize (cfg s)"
    and banks: "banks = sector_banks s Address (unat (sectors_to_erase s Address ByteCount))"
    and cs: "cs = bank_chunks (unat RdAddress) (unat RdByteCount)"
  shows "(ByteCount \<noteq> NumSect (cfg s) * SectSize (cfg s) \<longrightarrow>
            (\<forall>s'. FlashErase s Address ByteCount W = Inr s' \<longrightarrow>
               filter is_bank_select (new_bus s s') =
                 (if selects_bank s then map (bank_write s) (remdups_adj banks) else [])) \<and>
            (ConnectionMode s \<noteq> XQSPIPS_CONNECTION_MODE_OTHER \<and> all_ready (script s) \<and>
             3 * unat (sectors_to_erase s Address ByteCount) \<le> length (script s) \<longrightarrow>
               (\<exists>s'. FlashErase s Address ByteCount W = Inr s'))) \<and>
         (ConnectionMode s \<noteq> XQSPIPS_CONNECTION_MODE_OTHER \<and>
          within_banks RdAddress RdByteCount \<and> length cs \<le> length (script s) \<longrightarrow>
            (\<exists>s'. FlashRead s RdAddress RdByteCount Command W R = Inr s' \<and>
               filter is_bank_select (new_bus s s') =
                 (if selects_bank s
                  then map (\<lambda>(a, k). bank_write s (real_addr s (of_nat a) div SIXTEENMB)) cs
                  else [])))"
proof (intro conjI impI allI)
  fix s'
  assume part: "ByteCount \<noteq> NumSect (cfg s) * SectSize (cfg s)"
    and e: "FlashErase s Address ByteCount W = Inr s'"
  from FlashErase_loop_Inr [OF e [unfolded FlashErase_partial [OF part]]] big
  have "filter is_bank_select (new_bus s s') =
          concat (map (bank_writes s) (remdups_adj banks))"
    by (simp add: bank_changes_remdups_adj banks)
  then show "filter is_bank_select (new_bus s s') =
          (if selects_bank s then map (bank_write s) (remdups_adj banks) else [])"
    by (simp only: concat_bank_writes)
next
  assume part: "ByteCount \<noteq> NumSect (cfg s) * SectSize (cfg s)"
    and "ConnectionMode s \<noteq> XQSPIPS_CONNECTION_MODE_OTHER \<and> all_ready (script s) \<and>
         3 * unat (sectors_to_erase s Address ByteCount) \<le> length (script s)"
  then show "\<exists>s'. FlashErase s Address ByteCount W = Inr s'"
    unfolding FlashErase_partial [OF part]
    by (intro FlashErase_loop_total) simp_all
next
  assume a: "ConnectionMode s \<noteq> XQSPIPS_CONNECTION_MODE_OTHER \<and>
          within_banks RdAddress RdByteCount \<and> length cs \<le> length (script s)"
  then have mode: "ConnectionMode s \<noteq> XQSPIPS_CONNECTION_MODE_OTHER"
    and range: "within_banks RdAddress RdByteCount \<or> RdByteCount = 0"
    and answers: "length (bank_chunks (unat RdAddress) (unat RdByteCount)) \<le> length (script s)"
    by (simp_all add: cs)
  from FlashRead_loop_bus [OF mode range answers, of Command W R RdByteCount]
  obtain s' frs where r: "FlashRead s RdAddress RdByteCount Command W R = Inr s'"
    and b: "bus s' = bus s @
              concat (map2 (\<lambda>(a, k) fr. read_select s a @ [Exchange fr]) cs frs)"
    and f: "list_all2 (\<lambda>(a, k) fr.
                         take 4 fr = Command # addr3 (real_addr s (of_nat a)) \<and>
                         length fr = k + unat (dummy_bytes Command) + 4) cs frs"
    unfolding FlashRead_def cs by blast
  have "filter is_bank_select (new_bus s s') =
          concat (map (\<lambda>(a, k). filter is_bank_select (read_select s a)) cs)"
    unfolding new_bus_append [OF b] using f by (rule filter_select_chunks)
  also have "\<dots> = concat (map (\<lambda>(a, k). if selects_bank s
               then [bank_write s (real_addr s (of_nat a) div SIXTEENMB)] else []) cs)"
    by (simp only: select_of_read_select [OF big])
  also have "\<dots> = (if selects_bank s
                  then map (\<lambda>(a, k). bank_write s (real_addr s (of_nat a) div SIXTEENMB)) cs
                  else [])"
    by (induction cs) auto
  finally show "\<exists>s'. FlashRead s RdAddress RdByteCount Command W R = Inr s' \<and>
               filter is_bank_select (new_bus s s') =
                 (if selects_bank s
                  then map (\<lambda>(a, k). bank_write s (real_addr s (of_nat a) div SIXTEENMB)) cs
                  else [])"
    using r by blast
qed

theorem C3_bank_select_emission_witness:
  "(\<exists>s'. FlashErase (driver_state XQSPIPS_CONNECTION_MODE_SINGLE 0x20 12
                       (replicate 9 (XST_SUCCESS, [0, 0]))) 0xFF0000 0x20001 0 = Inr s' \<and>
         filter is_bank_select
           (new_bus (driver_state XQSPIPS_CONNECTION_MODE_SINGLE 0x20 12
                       (replicate 9 (XST_SUCCESS, [0, 0]))) s') =
           [Send [0xC5, 0], Send [0xC5, 1]]) \<and>
   (\<exists>s'. FlashRead (driver_state XQSPIPS_CONNECTION_MODE_SINGLE 0x20 12
                       (replicate 9 (XST_SUCCESS, [0, 0]))) 0xFFFFFE 4 READ_CMD 0 16 = Inr s' \<and>
         filter is_bank_select
           (new_bus (driver_state XQSPIPS_CONNECTION_MODE_SINGLE 0x20 12
                       (replicate 9 (XST_SUCCESS, [0, 0]))) s') =
           [Send [0xC5, 0], Send [0xC5, 1]])"
proof -
  let ?s = "driver_state XQSPIPS_CONNECTION_MODE_SINGLE 0x20 12
              (replicate 9 (XST_SUCCESS, [0, 0]))"
  have c: "cfg ?s = row 0x10000 0x200 256 0x20000 0x2000000 MICRON_ID_BYTE0
                      MICRON_ID_BYTE2_256 0xFFFF0000 1"
    by (simp add: cfg_def driver_state_def Flash_Config_Table_def)
  have big: "SIXTEENMB < FlashDeviceSize (cfg ?s)"
    by (simp add: c row_def flash_defs)
  have p: "(0x20001 :: u32) \<noteq> NumSect (cfg ?s) * SectSize (cfg ?s)"
    by (simp add: c row_def)
  have n: "sectors_to_erase ?s 0xFF0000 0x20001 = 3"
    by (simp add: sectors_to_erase_def boundary_overlap_def c row_def)
  have m: "ConnectionMode ?s = XQSPIPS_CONNECTION_MODE_SINGLE"
    by (simp add: driver_state_def)
  have r: "ConnectionMode ?s \<noteq> XQSPIPS_CONNECTION_MODE_OTHER \<and> all_ready (script ?s) \<and>
      3 * unat (sectors_to_erase ?s 0xFF0000 0x20001) \<le> length (script ?s)"
    by (simp add: n) (simp add: driver_state_def all_ready_def busy_def rx_bytes_def list_all_iff)
  have b: "sector_banks ?s 0xFF0000 3 = [0, 1, 1]"
    by (simp add: numeral_3_eq_3 sector_banks_Suc real_addr_def m c row_def flash_defs)
      (simp add: sector_banks_def)
  have k0: "bank_chunks 16777214 4 = [(16777214, 2), (16777216, 2)]"
    by (simp add: bank_chunks_pos)
  then have k: "bank_chunks (unat (0xFFFFFE :: u32)) (unat (4 :: u32)) =
             [(16777214, 2), (16777216, 2)]"
    by simp
  have q: "ConnectionMode ?s \<noteq> XQSPIPS_CONNECTION_MODE_OTHER \<and> within_banks 0xFFFFFE 4 \<and>
      length (bank_chunks (unat (0xFFFFFE :: u32)) (unat (4 :: u32))) \<le> length (script ?s)"
    by (simp add: k0 within_banks_def Let_def) (simp add: driver_state_def)
  have sb: "selects_bank ?s" by (simp add: selects_bank_def driver_state_def flash_defs)
  have w: "bank_write ?s 0 = Send [0xC5, 0]" "bank_write ?s 1 = Send [0xC5, 1]"
    by (simp_all add: bank_write_def driver_state_def flash_defs)
  have ra: "real_addr ?s 16777214 div SIXTEENMB = 0" "real_addr ?s 16777216 div SIXTEENMB = 1"
    by (simp_all add: real_addr_def m flash_defs)
  note t = C3_bank_select_emission [OF big refl refl, of "0x20001" "0xFF0000" 0 "0xFFFFFE" 4
      READ_CMD 16]
  from t p r obtain s1 where e: "FlashErase ?s 0xFF0000 0x20001 0 = Inr s1" by blast
  with t p have "filter is_bank_select (new_bus ?s s1) =
      (if selects_bank ?s then map (bank_write ?s) (remdups_adj (sector_banks ?s 0xFF0000 3))
       else [])"
    by (simp add: n)
  then have 1: "filter is_bank_select (new_bus ?s s1) = [Send [0xC5, 0], Send [0xC5, 1]]"
    by (simp add: sb b w)
  from t q obtain s2 where rd: "FlashRead ?s 0xFFFFFE 4 READ_CMD 0 16 = Inr s2"
    and "filter is_bank_select (new_bus ?s s2) =
      (if selects_bank ?s
       then map (\<lambda>(a, k). bank_write ?s (real_addr ?s (of_nat a) div SIXTEENMB))
              (bank_chunks (unat (0xFFFFFE :: u32)) (unat (4 :: u32)))
       else [])"
    by blast
  then have 2: "filter is_bank_select (new_bus ?s s2) = [Send [0xC5, 0], Send [0xC5, 1]]"
    by (simp add: sb k0 ra w)
  from e 1 rd 2 show ?thesis by blast
qed

text \<open>
  C3 as stated fails for the read: in Parallel topology the two chunks of a read of 4
  bytes at \<open>0xFFFFFE\<close> both lie in bank 0 of the device, and each emits the
  bank-register write for bank 0.
\<close>

theorem C3_read_reselects_counterexample:
  "map_option (filter is_bank_select \<circ> bus)
     (returned (FlashRead (driver_state XQSPIPS_CONNECTION_MODE_PARALLEL 0x20 14
                             [(XST_SUCCESS, []), (XST_SUCCESS, [])])
                  0xFFFFFE 4 READ_CMD 0 16))
     = Some [Send [0xC5, 0], Send [0xC5, 0]] \<and>
   SIXTEENMB < FlashDeviceSize
     (cfg (driver_state XQSPIPS_CONNECTION_MODE_PARALLEL 0x20 14
             [(XST_SUCCESS, []), (XST_SUCCESS, [])])) \<and>
   real_addr (driver_state XQSPIPS_CONNECTION_MODE_PARALLEL 0x20 14
                [(XST_SUCCESS, []), (XST_SUCCESS, [])]) 0xFFFFFE div SIXTEENMB = 0 \<and>
   real_addr (driver_state XQSPIPS_CONNECTION_MODE_PARALLEL 0x20 14
                [(XST_SUCCESS, []), (XST_SUCCESS, [])]) 0x1000000 div SIXTEENMB = 0"
proof -
  let ?s = "driver_state XQSPIPS_CONNECTION_MODE_PARALLEL 0x20 14
              [(XST_SUCCESS, []), (XST_SUCCESS, [])]"
  have c: "cfg ?s = row 0x20000 0x200 512 0x20000 0x2000000 MICRON_ID_BYTE0
                      MICRON_ID_BYTE2_256 0xFFFE0000 1"
    by (simp add: cfg_def driver_state_def Flash_Config_Table_def)
  have 1: "SIXTEENMB < FlashDeviceSize (cfg ?s)"
    by (simp add: c row_def flash_defs)
  have 2: "real_addr ?s 0xFFFFFE div SIXTEENMB = 0" "real_addr ?s 0x1000000 div SIXTEENMB = 0"
    by (simp_all add: real_addr_def driver_state_def flash_defs)
  have "map_option (filter is_bank_select \<circ> bus)
          (returned (FlashRead ?s 0xFFFFFE 4 READ_CMD 0 16))
        = Some [Send [0xC5, 0], Send [0xC5, 0]]"
    by (simp add: FlashRead_def FlashRead_loop.simps FlashRead_chunk_def GetRealAddr_def
        SendBankSelect_eq bank_select_frames_def bank_select_mem_def
        driver_state_def cfg_def Flash_Config_Table_def row_def Let_def transfer_rx_def
        dummy_read_def returned_def flash_defs)
  with 1 2 show ?thesis by blast
qed

subsection \<open>C5: a read is split at the bank boundaries\<close>

text \<open>
  C5, as amended. Take a read of \<open>ByteCount > 0\<close> bytes whose span the bank mask tells
  apart (it lies in one bank, or starts below \<open>2^28\<close> and ends below \<open>2^28 + 2^24\<close>,
  and below \<open>2^28\<close> when it starts in bank 0), in one of the three topologies, on a device
  that answers one transfer for each chunk. Then \<open>FlashRead\<close> returns, and the transfers
  it has added to the bus are, for the chunks of the spec in their order: the bank select
  for the chunk on a device larger than 16 MB, and one receiving transfer, which begins
  with the command byte and the three address bytes of the translated address of the
  start of the chunk, and has the size of the chunk's payload plus the four overhead
  bytes, plus one dummy byte for the fast, dual and quad commands. The payloads add up to
  \<open>ByteCount\<close>; every chunk is non-empty and ends in the bank it starts in; the first
  chunk starts at \<open>Address\<close> and every later one at the bank boundary that follows its
  predecessor.
\<close>

theorem C5_read_chunks:
  assumes pos: "0 < ByteCount"
    and range: "within_banks Address ByteCount"
    and mode: "ConnectionMode s \<noteq> XQSPIPS_CONNECTION_MODE_OTHER"
    and answers: "length (bank_chunks (unat Address) (unat ByteCount)) \<le> length (script s)"
    and cs: "cs = bank_chunks (unat Address) (unat ByteCount)"
  shows "(\<exists>s' frs. FlashRead s Address ByteCount Command W R = Inr s' \<and>
            new_bus s s' =
              concat (map2 (\<lambda>(a, k) fr. read_select s a @ [Exchange fr]) cs frs) \<and>
            list_all2 (\<lambda>(a, k) fr.
                         take 4 fr = Command # addr3 (real_addr s (of_nat a)) \<and>
                         length fr = k + unat (dummy_bytes Command) + unat OVERHEAD_SIZE)
              cs frs) \<and>
         sum_list (map snd cs) = unat ByteCount \<and>
         (\<forall>(a, k) \<in> set cs. 0 < k \<and> a div 2 ^ 24 = (a + k - 1) div 2 ^ 24) \<and>
         cs \<noteq> [] \<and> fst (hd cs) = unat Address \<and>
         (\<forall>i. Suc i < length cs \<longrightarrow>
            fst (cs ! Suc i) = (fst (cs ! i) div 2 ^ 24 + 1) * 2 ^ 24)"
proof -
  from pos have n: "0 < unat ByteCount" by (simp add: word_less_nat_alt)
  from range have "within_banks Address ByteCount \<or> ByteCount = 0" ..
  from FlashRead_loop_bus [OF mode this answers, of Command W R ByteCount]
  obtain s' frs where r: "FlashRead s Address ByteCount Command W R = Inr s'"
    and b: "bus s' = bus s @
              concat (map2 (\<lambda>(a, k) fr. read_select s a @ [Exchange fr]) cs frs)"
    and f: "list_all2 (\<lambda>(a, k) fr.
                         take 4 fr = Command # addr3 (real_addr s (of_nat a)) \<and>
                         length fr = k + unat (dummy_bytes Command) + 4) cs frs"
    unfolding FlashRead_def cs by blast
  from new_bus_append [OF b] r f
  have "\<exists>s' frs. FlashRead s Address ByteCount Command W R = Inr s' \<and>
            new_bus s s' =
              concat (map2 (\<lambda>(a, k) fr. read_select s a @ [Exchange fr]) cs frs) \<and>
            list_all2 (\<lambda>(a, k) fr.
                         take 4 fr = Command # addr3 (real_addr s (of_nat a)) \<and>
                         length fr = k + unat (dummy_bytes Command) + unat OVERHEAD_SIZE)
              cs frs"
    unfolding OVERHEAD_SIZE_def by auto
  moreover have "sum_list (map snd cs) = unat ByteCount"
    unfolding cs by (rule bank_chunks_sum)
  moreover have "\<forall>(a, k) \<in> set cs. 0 < k \<and> a div 2 ^ 24 = (a + k - 1) div 2 ^ 24"
    unfolding cs using bank_chunks_within by blast
  moreover have "cs \<noteq> [] \<and> fst (hd cs) = unat Address"
    unfolding cs by (rule bank_chunks_hd [OF n])
  moreover have "\<forall>i. Suc i < length cs \<longrightarrow>
            fst (cs ! Suc i) = (fst (cs ! i) div 2 ^ 24 + 1) * 2 ^ 24"
    unfolding cs using bank_chunks_next by blast
  ultimately show ?thesis by blast
qed

theorem C5_read_chunks_witness:
  "\<exists>s' f1 f2. FlashRead (driver_state XQSPIPS_CONNECTION_MODE_SINGLE 0x20 12
                      [(XST_SUCCESS, []), (XST_SUCCESS, [])])
           0xFFFFFE 4 QUAD_READ_CMD 0 16 = Inr s' \<and>
         new_bus (driver_state XQSPIPS_CONNECTION_MODE_SINGLE 0x20 12
                    [(XST_SUCCESS, []), (XST_SUCCESS, [])]) s' =
           [Send [0x06], Send [0xC5, 0], Exchange f1,
            Send [0x06], Send [0xC5, 1], Exchange f2] \<and>
         take 4 f1 = [0x6B, 0xFF, 0xFF, 0xFE] \<and> length f1 = 7 \<and>
         take 4 f2 = [0x6B, 0, 0, 0] \<and> length f2 = 7"
proof -
  let ?s = "driver_state XQSPIPS_CONNECTION_MODE_SINGLE 0x20 12
              [(XST_SUCCESS, []), (XST_SUCCESS, [])]"
  have c: "bank_chunks 16777214 4 = [(16777214, 2), (16777216, 2)]"
    by (simp add: bank_chunks_pos)
  have 1: "(0 :: u32) < 4" by simp
  have 2: "within_banks 0xFFFFFE 4" by (simp add: within_banks_def Let_def)
  have 3: "ConnectionMode ?s \<noteq> XQSPIPS_CONNECTION_MODE_OTHER"
    by (simp add: driver_state_def)
  have 4: "length (bank_chunks (unat (0xFFFFFE :: u32)) (unat (4 :: u32))) \<le> length (script ?s)"
    by (simp add: c) (simp add: driver_state_def)
  have sel: "read_select ?s 16777214 = [Send [0x06], Send [0xC5, 0]]"
    "read_select ?s 16777216 = [Send [0x06], Send [0xC5, 1]]"
    by (simp_all add: read_select_def bank_select_frames_def real_addr_def driver_state_def
        cfg_def Flash_Config_Table_def row_def flash_defs)
  have hdr: "addr3 (real_addr ?s 16777214) = [0xFF, 0xFF, 0xFE]"
    "addr3 (real_addr ?s 16777216) = [0, 0, 0]"
    by (simp_all add: addr3_def real_addr_def driver_state_def)
  from C5_read_chunks [OF 1 2 3 4 refl, of QUAD_READ_CMD 0 16]
  show ?thesis
    by (auto simp: c list_all2_Cons1 sel hdr dummy_bytes_def dummy_read_def flash_defs)
qed

text \<open>
  C5 as stated fails for a byte count that is negative as a \<open>signed long\<close>: the loop
  condition is false at once, and a read of \<open>0x80000000\<close> bytes makes no transfer.
\<close>

theorem C5_signed_count_counterexample:
  "(0 :: u32) < 0x80000000 \<and>
   map_option bus
     (returned (FlashRead (driver_state XQSPIPS_CONNECTION_MODE_SINGLE 0x20 12
                             [(XST_SUCCESS, []), (XST_SUCCESS, [])])
                  0 0x80000000 READ_CMD 0 16)) = Some []"
  by (simp add: FlashRead_def FlashRead_loop.simps returned_def driver_state_def)

subsection \<open>What a call leaves on the bus and in memory\<close>
















lemma filter_program_write [simp]:
  "filter is_page_program (flag_read s) = []"
  "filter is_page_program (replicate k (Exchange bs)) = []"
  by (simp_all add: flag_read_def)









subsection \<open>C8: the update programs the image page by page\<close>




end
